theory Spec2Isabelle
  imports Complex_Main "HOL-Library.Char_ord" "HOL-Library.List_Lexorder"
    "HOL-Library.Product_Lexorder" "HOL-Library.Multiset" "HOL-Library.Sublist"
begin

section \<open>Common data: errors and numpy floats\<close>

text \<open>
  Every exception the modelled Python code can raise is a value of \<open>error\<close>; a function
  that may raise returns \<open>error + 'a\<close> with \<open>Inl\<close> for the exception.
  \<open>ExternalError\<close> stands for whatever an external library routine (formulaic, botorch,
  numpy.linalg) raises; its payload is the library's message.
\<close>

datatype error =
    ValueError
  | IndexError
  | KeyError
  | ZeroDivisionError
  | AttributeError
  | AssertionError
  | NotImplementedError
  | ValidationError
  | TypeError
  | ExternalError string

text \<open>Sequencing of computations that may raise.\<close>

definition then_do :: "error + 'a \<Rightarrow> ('a \<Rightarrow> error + 'b) \<Rightarrow> error + 'b" where
  "then_do r f = (case r of Inl e \<Rightarrow> Inl e | Inr x \<Rightarrow> f x)"

text \<open>A Python dict as an association list in insertion order: assigning to a key
  already present replaces its value in place.\<close>

fun dict_set :: "('k \<times> 'v) list \<Rightarrow> 'k \<Rightarrow> 'v \<Rightarrow> ('k \<times> 'v) list" where
  "dict_set [] k v = [(k, v)]"
| "dict_set ((k', v') # d) k v =
     (if k' = k then (k, v) # d else (k', v') # dict_set d k v)"

definition dict_comp :: "('a \<Rightarrow> 'k \<times> 'v) \<Rightarrow> 'a list \<Rightarrow> ('k \<times> 'v) list" where
  "dict_comp f xs = foldl (\<lambda>d x. dict_set d (fst (f x)) (snd (f x))) [] xs"

text \<open>
  A numpy float64 is idealised as a real number or one of the three IEEE special values.
  Rounding is not modelled; the special values are, because division by a zero norm
  and comparisons with NaN are where the code's behaviour differs from real arithmetic.
\<close>

datatype npfloat = Fin real | PosInf | NegInf | NaN

fun np_abs :: "npfloat \<Rightarrow> npfloat" where
  "np_abs (Fin r) = Fin \<bar>r\<bar>"
| "np_abs PosInf = PosInf"
| "np_abs NegInf = PosInf"
| "np_abs NaN = NaN"

fun np_lt :: "npfloat \<Rightarrow> npfloat \<Rightarrow> bool" where
  "np_lt NaN _ = False"
| "np_lt _ NaN = False"
| "np_lt (Fin a) (Fin b) = (a < b)"
| "np_lt NegInf NegInf = False"
| "np_lt NegInf _ = True"
| "np_lt _ NegInf = False"
| "np_lt PosInf _ = False"
| "np_lt (Fin a) PosInf = True"

text \<open>\<open>a / b\<close> on float64 operands under numpy: division by zero warns and yields
  an infinity or NaN, it does not raise.\<close>

fun np_div :: "real \<Rightarrow> real \<Rightarrow> npfloat" where
  "np_div a b =
     (if b = 0 then (if a = 0 then NaN else if 0 < a then PosInf else NegInf)
      else Fin (a / b))"

section \<open>Domain model\<close>

text \<open>
  Input features (\<open>bofire/domain/features.py\<close>). A continuous input carries its bounds,
  a discrete input its permissible values, a categorical input its categories and the
  allowed flags. The descriptor subclasses are not needed by any property below.
\<close>

datatype feature =
    ContinuousInput (key: string) (bounds: "real \<times> real")
  | DiscreteInput (key: string) (vals: "real list")
  | CategoricalInput (key: string) (categories: "string list") (allowed: "bool list")

text \<open>\<open>FEATURE_ORDER\<close>: the rank \<open>Feature.__lt__\<close> compares first.\<close>

fun FEATURE_ORDER :: "feature \<Rightarrow> nat" where
  "FEATURE_ORDER (ContinuousInput _ _) = 1"
| "FEATURE_ORDER (DiscreteInput _ _) = 3"
| "FEATURE_ORDER (CategoricalInput _ _ _) = 5"

fun is_continuous :: "feature \<Rightarrow> bool" where
  "is_continuous (ContinuousInput _ _) = True"
| "is_continuous _ = False"

text \<open>\<open>Features.get\<close>: filter by class, then \<open>sorted\<close> (stable) under
  \<open>Feature.__lt__\<close>, that is by rank and then by key.\<close>

definition get_features :: "(feature \<Rightarrow> bool) \<Rightarrow> feature list \<Rightarrow> feature list" where
  "get_features incl fs = sort_key (\<lambda>f. (FEATURE_ORDER f, key f)) (filter incl fs)"

definition get_keys :: "feature list \<Rightarrow> string list" where
  "get_keys fs = map key (get_features (\<lambda>_. True) fs)"

text \<open>\<open>Features.get_by_key\<close>: a dict built from the features, indexed by the key; a
  later feature with the same key overwrites an earlier one, a missing key raises.\<close>

definition get_by_key :: "feature list \<Rightarrow> string \<Rightarrow> error + feature" where
  "get_by_key fs k =
     (case map_of (rev (map (\<lambda>f. (key f, f)) fs)) k of
        None \<Rightarrow> Inl KeyError
      | Some f \<Rightarrow> Inr f)"

text \<open>Constraints of a domain. Expressions of nonlinear constraints are kept as
  their source text; \<open>OtherConstraint\<close> is any object of a class the transformer
  does not know.\<close>

datatype constraint =
    LinearEqualityConstraint (features: "string list") (coefficients: "real list") (rhs: real)
  | LinearInequalityConstraint (features: "string list") (coefficients: "real list") (rhs: real)
  | NonlinearEqualityConstraint (expression: string) (nl_features: "string list option")
      (jacobian_expression: "string option")
  | NonlinearInequalityConstraint (expression: string) (nl_features: "string list option")
      (jacobian_expression: "string option")
  | NChooseKConstraint (features: "string list") (min_count: nat) (max_count: int)
      (none_also_valid: bool)
  | OtherConstraint string

record domain =
  inputs :: "feature list"
  constraints :: "constraint list"

text \<open>A pandas data frame: column labels and rows of entries.\<close>

record 'a dataframe =
  columns :: "string list"
  rows :: "'a list list"

section \<open>DiscreteInput: validation of the values\<close>

text \<open>
  \<open>DiscreteInput.validate_values_unique\<close>: raises when the list has a repeated
  element, otherwise returns the values sorted.
\<close>

definition validate_values_unique :: "real list \<Rightarrow> error + real list" where
  "validate_values_unique values =
     (if length values \<noteq> card (set values) then Inl ValueError
      else Inr (sort values))"

text \<open>
  Construction of a \<open>DiscreteInput\<close>: the field type \<open>conlist(float, min_items=1)\<close>
  is checked first, then the validator runs and its result is stored.
\<close>

definition DiscreteInput_init :: "string \<Rightarrow> real list \<Rightarrow> error + feature" where
  "DiscreteInput_init k values =
     (if length values < 1 then Inl ValidationError
      else case validate_values_unique values of
             Inl e \<Rightarrow> Inl e
           | Inr vs \<Rightarrow> Inr (DiscreteInput k vs))"

section \<open>ConstraintWrapper\<close>

text \<open>
  The wrapper of a nonlinear constraint (\<open>strategies/doe/utils.py\<close>). Only the fields
  \<open>__call__\<close> reads are kept; \<open>constraint_feature_indices\<close> serves the jacobian alone.
\<close>

record ConstraintWrapper =
  cw_constraint :: constraint
  cw_names :: "string list"
  cw_D :: nat
  cw_n_experiments :: nat

text \<open>\<open>ConstraintWrapper.__init__\<close>: raises when the constraint has no features.\<close>

fun constraint_features :: "constraint \<Rightarrow> string list option" where
  "constraint_features (LinearEqualityConstraint fs _ _) = Some fs"
| "constraint_features (LinearInequalityConstraint fs _ _) = Some fs"
| "constraint_features (NonlinearEqualityConstraint _ fs _) = fs"
| "constraint_features (NonlinearInequalityConstraint _ fs _) = fs"
| "constraint_features (NChooseKConstraint fs _ _ _) = Some fs"
| "constraint_features (OtherConstraint _) = None"

definition ConstraintWrapper_init :: "constraint \<Rightarrow> domain \<Rightarrow> nat \<Rightarrow> error + ConstraintWrapper" where
  "ConstraintWrapper_init c d n =
     (case constraint_features c of
        None \<Rightarrow> Inl ValueError
      | Some _ \<Rightarrow>
          Inr \<lparr> cw_constraint = c, cw_names = get_keys (inputs d),
                cw_D = length (inputs d), cw_n_experiments = n \<rparr>)"

text \<open>Cutting a flat vector into \<open>r\<close> rows of width \<open>w\<close>, row-major.\<close>

fun chunks :: "nat \<Rightarrow> nat \<Rightarrow> 'a list \<Rightarrow> 'a list list" where
  "chunks 0 w xs = []"
| "chunks (Suc r) w xs = take w xs # chunks r w (drop w xs)"

text \<open>
  \<open>pd.DataFrame(x.reshape(len(x) // D, D), columns=names)\<close>: the integer division
  raises for \<open>D = 0\<close>, \<open>reshape\<close> raises when the sizes do not match, and the frame
  constructor raises when the number of labels is not the number of columns.
\<close>

definition frame_of_flat :: "ConstraintWrapper \<Rightarrow> npfloat list \<Rightarrow> error + npfloat dataframe" where
  "frame_of_flat cw x =
     (if cw_D cw = 0 then Inl ZeroDivisionError
      else if (length x div cw_D cw) * cw_D cw \<noteq> length x then Inl ValueError
      else if length (cw_names cw) \<noteq> cw_D cw then Inl ValueError
      else Inr \<lparr> columns = cw_names cw,
                 rows = chunks (length x div cw_D cw) (cw_D cw) x \<rparr>)"

text \<open>\<open>a[mask] = v\<close> for a boolean mask of the same length.\<close>

definition mask_assign :: "bool list \<Rightarrow> 'a \<Rightarrow> 'a list \<Rightarrow> 'a list" where
  "mask_assign msk v xs = map (\<lambda>(m, x). if m then v else x) (zip msk xs)"

text \<open>
  \<open>ConstraintWrapper.__call__\<close>. The evaluation of the wrapped constraint on a data
  frame belongs to the constraint classes and is the parameter \<open>ceval\<close>.
\<close>

definition ConstraintWrapper_call ::
  "(constraint \<Rightarrow> npfloat dataframe \<Rightarrow> error + npfloat list) \<Rightarrow> ConstraintWrapper \<Rightarrow> npfloat list
     \<Rightarrow> error + npfloat list" where
  "ConstraintWrapper_call ceval cw x =
     (case frame_of_flat cw x of
        Inl e \<Rightarrow> Inl e
      | Inr df \<Rightarrow>
          (case ceval (cw_constraint cw) df of
             Inl e \<Rightarrow> Inl e
           | Inr violation \<Rightarrow>
               Inr (mask_assign (map (\<lambda>v. np_lt (np_abs v) (Fin 0)) violation) (Fin 0)
                      violation)))"

section \<open>Constraints as scipy constraints\<close>

text \<open>The constraint objects of scipy. For a nonlinear constraint the wrapper is kept and
  whether its jacobian was passed.\<close>

datatype scipy_constraint =
    LinearConstraint "npfloat list list" "npfloat list" "npfloat list"
  | NonlinearConstraint ConstraintWrapper "npfloat list" "npfloat list" bool

text \<open>\<open>np.linalg.norm\<close> of a list of coefficients.\<close>

definition l2_norm :: "real list \<Rightarrow> real" where
  "l2_norm cs = sqrt (sum_list (map (\<lambda>c. c * c) cs))"

text \<open>The dict \<open>lhs\<close>: every feature of the constraint with its coefficient divided by the
  norm. The comprehension reads \<open>c.coefficients[i]\<close> for every position of the features.\<close>

definition lhs_dict :: "string list \<Rightarrow> real list \<Rightarrow> error + (string \<times> npfloat) list" where
  "lhs_dict fs cs =
     (if length cs < length fs then Inl IndexError
      else Inr (dict_comp (\<lambda>i. (fs ! i, np_div (cs ! i) (l2_norm cs))) [0 ..< length fs]))"

text \<open>The row over the keys of the inputs: zero where the key is not in \<open>lhs\<close>.\<close>

definition lhs_row :: "string list \<Rightarrow> (string \<times> npfloat) list \<Rightarrow> npfloat list" where
  "lhs_row keys lhs =
     map (\<lambda>name. case map_of lhs name of None \<Rightarrow> Fin 0 | Some v \<Rightarrow> v) keys"

text \<open>\<open>x[start : start + len(vs)] = vs\<close> on a list that is long enough.\<close>

definition assign_slice :: "'a list \<Rightarrow> nat \<Rightarrow> 'a list \<Rightarrow> 'a list" where
  "assign_slice xs start vs = take start xs @ vs @ drop (start + length vs) xs"

text \<open>The matrix: zeros of shape \<open>(n, D * n)\<close>, then the row written into row \<open>i\<close> at the
  columns \<open>i * D\<close> to \<open>(i + 1) * D\<close>, for every experiment \<open>i\<close>.\<close>

definition fill_blocks :: "nat \<Rightarrow> nat \<Rightarrow> npfloat list \<Rightarrow> npfloat list list" where
  "fill_blocks n D row =
     fold (\<lambda>i A. A[i := assign_slice (A ! i) (i * D) row]) [0 ..< n]
       (replicate n (replicate (D * n) (Fin 0)))"

text \<open>The translation of one constraint: the scipy constraints it appends.\<close>

fun scipy_of_constraint :: "domain \<Rightarrow> nat \<Rightarrow> bool \<Rightarrow> constraint \<Rightarrow> error + scipy_constraint list" where
  "scipy_of_constraint d n ign (LinearEqualityConstraint fs cs r) =
     then_do (lhs_dict fs cs) (\<lambda>lhs.
       Inr [LinearConstraint (fill_blocks n (length (inputs d)) (lhs_row (get_keys (inputs d)) lhs))
              (replicate n (np_div r (l2_norm cs))) (replicate n (np_div r (l2_norm cs)))])"
| "scipy_of_constraint d n ign (LinearInequalityConstraint fs cs r) =
     then_do (lhs_dict fs cs) (\<lambda>lhs.
       Inr [LinearConstraint (fill_blocks n (length (inputs d)) (lhs_row (get_keys (inputs d)) lhs))
              (replicate n NegInf) (replicate n (np_div r (l2_norm cs)))])"
| "scipy_of_constraint d n ign (NonlinearEqualityConstraint ex fs jac) =
     then_do (ConstraintWrapper_init (NonlinearEqualityConstraint ex fs jac) d n) (\<lambda>f.
       Inr [NonlinearConstraint f (replicate n (Fin 0)) (replicate n (Fin 0)) (jac \<noteq> None)])"
| "scipy_of_constraint d n ign (NonlinearInequalityConstraint ex fs jac) =
     then_do (ConstraintWrapper_init (NonlinearInequalityConstraint ex fs jac) d n) (\<lambda>f.
       Inr [NonlinearConstraint f (replicate n NegInf) (replicate n (Fin 0)) (jac \<noteq> None)])"
| "scipy_of_constraint d n ign (NChooseKConstraint fs mi ma nv) =
     (if ign then Inr []
      else then_do (ConstraintWrapper_init (NChooseKConstraint fs mi ma nv) d n) (\<lambda>f.
             Inr [NonlinearConstraint f (replicate n NegInf) (replicate n (Fin 0)) True]))"
| "scipy_of_constraint d n ign (OtherConstraint _) = Inl NotImplementedError"

text \<open>The loop over the constraints of the domain.\<close>

fun scipy_loop ::
  "domain \<Rightarrow> nat \<Rightarrow> bool \<Rightarrow> constraint list \<Rightarrow> scipy_constraint list
     \<Rightarrow> error + scipy_constraint list" where
  "scipy_loop d n ign [] acc = Inr acc"
| "scipy_loop d n ign (c # cs) acc =
     then_do (scipy_of_constraint d n ign c) (\<lambda>new. scipy_loop d n ign cs (acc @ new))"

text \<open>\<open>constraints_as_scipy_constraints\<close> (\<open>strategies/doe/utils.py\<close>).\<close>

definition constraints_as_scipy_constraints ::
  "domain \<Rightarrow> nat \<Rightarrow> bool \<Rightarrow> error + scipy_constraint list" where
  "constraints_as_scipy_constraints d n_experiments ignore_nchoosek =
     (if length (constraints d) = 0 then Inr []
      else scipy_loop d n_experiments ignore_nchoosek (constraints d) [])"

text \<open>
  The same in the words of the specification. The coefficient row of a constraint over the
  keys of the inputs: the coefficient of the feature (of its last mention) divided by the
  norm, zero for an input the constraint does not mention.
\<close>

definition scaled_row :: "string list \<Rightarrow> string list \<Rightarrow> real list \<Rightarrow> npfloat list" where
  "scaled_row keys fs cs =
     map (\<lambda>name. case map_of (rev (zip fs cs)) name of
                    None \<Rightarrow> Fin 0
                  | Some a \<Rightarrow> np_div a (l2_norm cs)) keys"

text \<open>The block-diagonal replication of a row of width \<open>D\<close>: row \<open>i\<close> of the matrix
  holds the row in the columns \<open>i * D\<close> to \<open>(i + 1) * D\<close> and zero elsewhere.\<close>

definition block_diagonal :: "nat \<Rightarrow> nat \<Rightarrow> npfloat list \<Rightarrow> npfloat list list" where
  "block_diagonal n D row =
     map (\<lambda>i. map (\<lambda>j. if i * D \<le> j \<and> j < (i + 1) * D then row ! (j - i * D) else Fin 0)
                 [0 ..< D * n])
         [0 ..< n]"

text \<open>The linear constraint the specification expects for a linear domain constraint.\<close>

fun expected_linear :: "domain \<Rightarrow> nat \<Rightarrow> constraint \<Rightarrow> scipy_constraint" where
  "expected_linear d n (LinearInequalityConstraint fs cs r) =
     LinearConstraint (block_diagonal n (length (inputs d)) (scaled_row (get_keys (inputs d)) fs cs))
       (replicate n NegInf) (replicate n (np_div r (l2_norm cs)))"
| "expected_linear d n c =
     LinearConstraint
       (block_diagonal n (length (inputs d))
          (scaled_row (get_keys (inputs d)) (features c) (coefficients c)))
       (replicate n (np_div (rhs c) (l2_norm (coefficients c))))
       (replicate n (np_div (rhs c) (l2_norm (coefficients c))))"

fun is_linear :: "constraint \<Rightarrow> bool" where
  "is_linear (LinearEqualityConstraint _ _ _) = True"
| "is_linear (LinearInequalityConstraint _ _ _) = True"
| "is_linear _ = False"

text \<open>A constraint the transformer can translate: of a known class, with a coefficient
  for every feature if it is linear, with its features set if it is wrapped.\<close>

fun translatable :: "bool \<Rightarrow> constraint \<Rightarrow> bool" where
  "translatable ign (LinearEqualityConstraint fs cs _) = (length fs \<le> length cs)"
| "translatable ign (LinearInequalityConstraint fs cs _) = (length fs \<le> length cs)"
| "translatable ign (NonlinearEqualityConstraint _ fs _) = (fs \<noteq> None)"
| "translatable ign (NonlinearInequalityConstraint _ fs _) = (fs \<noteq> None)"
| "translatable ign (NChooseKConstraint _ _ _ _) = True"
| "translatable ign (OtherConstraint _) = False"

text \<open>Example: two continuous inputs, an equality and an inequality.\<close>

definition dom_linear :: domain where
  "dom_linear =
     \<lparr> inputs = [ContinuousInput ''x2'' (0, 1), ContinuousInput ''x1'' (0, 1)],
       constraints = [LinearEqualityConstraint [''x1'', ''x2''] [3, 4] 10,
                      LinearInequalityConstraint [''x2''] [2] 1] \<rparr>"

section \<open>G-optimality\<close>

text \<open>A two-dimensional numpy array: its shape and its rows.\<close>

record ndarray2 =
  nrows :: nat
  ncols :: nat
  elems :: "real list list"

definition np_transpose :: "ndarray2 \<Rightarrow> ndarray2" where
  "np_transpose A =
     \<lparr> nrows = ncols A, ncols = nrows A,
       elems = map (\<lambda>j. map (\<lambda>i. elems A ! i ! j) [0 ..< nrows A]) [0 ..< ncols A] \<rparr>"

text \<open>\<open>A @ B\<close>: raises when the inner dimensions differ.\<close>

definition np_matmul :: "ndarray2 \<Rightarrow> ndarray2 \<Rightarrow> error + ndarray2" where
  "np_matmul A B =
     (if ncols A \<noteq> nrows B then Inl ValueError
      else Inr \<lparr> nrows = nrows A, ncols = ncols B,
                 elems = map (\<lambda>i. map (\<lambda>j. sum_list (map (\<lambda>k. elems A ! i ! k * elems B ! k ! j)
                                         [0 ..< ncols A])) [0 ..< ncols B]) [0 ..< nrows A] \<rparr>)"

definition np_eye :: "nat \<Rightarrow> ndarray2" where
  "np_eye n =
     \<lparr> nrows = n, ncols = n,
       elems = map (\<lambda>i. map (\<lambda>j. if i = j then 1 else 0) [0 ..< n]) [0 ..< n] \<rparr>"

definition np_scale :: "real \<Rightarrow> ndarray2 \<Rightarrow> ndarray2" where
  "np_scale a A = A \<lparr> elems := map (map (\<lambda>x. a * x)) (elems A) \<rparr>"

text \<open>Broadcasting of one dimension: equal sizes, or one of them is 1.\<close>

definition broadcast_dim :: "nat \<Rightarrow> nat \<Rightarrow> nat option" where
  "broadcast_dim a b =
     (if a = b then Some a else if a = 1 then Some b else if b = 1 then Some a else None)"

text \<open>\<open>A + B\<close> with broadcasting: raises when the shapes cannot be broadcast; an
  operand of size 1 along a dimension is repeated along it.\<close>

definition np_add :: "ndarray2 \<Rightarrow> ndarray2 \<Rightarrow> error + ndarray2" where
  "np_add A B =
     (case (broadcast_dim (nrows A) (nrows B), broadcast_dim (ncols A) (ncols B)) of
        (Some r, Some c) \<Rightarrow>
          Inr \<lparr> nrows = r, ncols = c,
                elems = map (\<lambda>i. map (\<lambda>j.
                            elems A ! (if nrows A = 1 then 0 else i) ! (if ncols A = 1 then 0 else j)
                          + elems B ! (if nrows B = 1 then 0 else i) ! (if ncols B = 1 then 0 else j))
                          [0 ..< c]) [0 ..< r] \<rparr>
      | _ \<Rightarrow> Inl ValueError)"

definition np_diag :: "ndarray2 \<Rightarrow> real list" where
  "np_diag A = map (\<lambda>i. elems A ! i ! i) [0 ..< min (nrows A) (ncols A)]"

text \<open>\<open>np.max\<close> of a vector: raises on an empty one.\<close>

definition np_max :: "real list \<Rightarrow> error + real" where
  "np_max xs = (if xs = [] then Inl ValueError else Inr (Max (set xs)))"

text \<open>
  \<open>g_optimality\<close> (\<open>strategies/doe/utils.py\<close>). \<open>len(X)\<close> is the number of rows of
  \<open>X\<close>. The matrix inverse is numpy's and is the parameter \<open>linalg_inv\<close>.
\<close>

definition g_optimality ::
  "(ndarray2 \<Rightarrow> error + ndarray2) \<Rightarrow> ndarray2 \<Rightarrow> real \<Rightarrow> error + real" where
  "g_optimality linalg_inv X delta =
     then_do (np_matmul (np_transpose X) X) (\<lambda>XtX.
     then_do (np_add XtX (np_scale delta (np_eye (nrows X)))) (\<lambda>M.
     then_do (linalg_inv M) (\<lambda>Minv.
     then_do (np_matmul X Minv) (\<lambda>XM.
     then_do (np_matmul XM (np_transpose X)) (\<lambda>H.
     np_max (np_diag H))))))"

text \<open>
  The criterion in the words of the specification: the identity has the dimension of
  \<open>X\<^sup>T X\<close>, the number of columns of \<open>X\<close>.
\<close>

definition g_optimality_spec ::
  "(ndarray2 \<Rightarrow> error + ndarray2) \<Rightarrow> ndarray2 \<Rightarrow> real \<Rightarrow> error + real" where
  "g_optimality_spec linalg_inv X delta =
     then_do (np_matmul (np_transpose X) X) (\<lambda>XtX.
     then_do (np_add XtX (np_scale delta (np_eye (ncols X)))) (\<lambda>M.
     then_do (linalg_inv M) (\<lambda>Minv.
     then_do (np_matmul X Minv) (\<lambda>XM.
     then_do (np_matmul XM (np_transpose X)) (\<lambda>H.
     np_max (np_diag H))))))"

text \<open>A model matrix of three experiments and two terms; one experiment and two terms.\<close>

definition X32 :: ndarray2 where
  "X32 = \<lparr> nrows = 3, ncols = 2, elems = [[1, 0], [0, 1], [1, 1]] \<rparr>"

definition X12 :: ndarray2 where
  "X12 = \<lparr> nrows = 1, ncols = 2, elems = [[1, 2]] \<rparr>"

section \<open>NChooseK constraints as bounds\<close>

fun is_nchoosek :: "constraint \<Rightarrow> bool" where
  "is_nchoosek (NChooseKConstraint _ _ _ _) = True"
| "is_nchoosek _ = False"

text \<open>The \<open>bounds\<close> attribute: continuous inputs have it, the other inputs do not.\<close>

fun feature_bounds :: "feature \<Rightarrow> error + (real \<times> real)" where
  "feature_bounds (ContinuousInput _ b) = Inr b"
| "feature_bounds _ = Inl AttributeError"

text \<open>\<open>np.unique\<close> of a list of names: the distinct names, sorted.\<close>

definition np_unique :: "string list \<Rightarrow> string list" where
  "np_unique names = sort (remdups names)"

text \<open>The inner loop of the first check: every name of one constraint, in order.\<close>

fun check_zero_in_bounds :: "feature list \<Rightarrow> string list \<Rightarrow> error + unit" where
  "check_zero_in_bounds fs [] = Inr ()"
| "check_zero_in_bounds fs (name # names) =
     (case get_by_key fs name of
        Inl e \<Rightarrow> Inl e
      | Inr input \<Rightarrow>
          (case feature_bounds input of
             Inl e \<Rightarrow> Inl e
           | Inr b \<Rightarrow>
               if fst b > 0 \<or> snd b < 0 then Inl ValueError
               else check_zero_in_bounds fs names))"

text \<open>The outer loop of the first check: every NChooseK constraint, in order.\<close>

fun check_all_bounds :: "feature list \<Rightarrow> constraint list \<Rightarrow> error + unit" where
  "check_all_bounds fs [] = Inr ()"
| "check_all_bounds fs (c # cs) =
     (case check_zero_in_bounds fs (np_unique (features c)) of
        Inl e \<Rightarrow> Inl e
      | Inr _ \<Rightarrow> check_all_bounds fs cs)"

text \<open>The second check: the three nested loops raise at the first pair of unequal
  constraints with a common name; they raise nothing else.\<close>

definition check_overlap :: "constraint list \<Rightarrow> error + unit" where
  "check_overlap nchoosek_constraints =
     (if list_ex (\<lambda>c. list_ex (\<lambda>c'. c \<noteq> c' \<and>
            list_ex (\<lambda>name. name \<in> set (features c')) (features c))
          nchoosek_constraints) nchoosek_constraints
      then Inl ValueError else Inr ())"

definition check_nchoosek_constraints_as_bounds :: "domain \<Rightarrow> error + unit" where
  "check_nchoosek_constraints_as_bounds d =
     (if length (constraints d) = 0 then Inr ()
      else let nchoosek_constraints = filter is_nchoosek (constraints d) in
        if length nchoosek_constraints = 0 then Inr ()
        else (case check_all_bounds (inputs d) nchoosek_constraints of
                Inl e \<Rightarrow> Inl e
              | Inr _ \<Rightarrow> check_overlap nchoosek_constraints))"

text \<open>Vocabulary of the properties: a name is a continuous input of the feature
  list; zero lies within its bounds, ends included.\<close>

definition continuous_key :: "feature list \<Rightarrow> string \<Rightarrow> bool" where
  "continuous_key fs name =
     (case get_by_key fs name of Inr f \<Rightarrow> is_continuous f | Inl _ \<Rightarrow> False)"

definition zero_in_bounds :: "feature list \<Rightarrow> string \<Rightarrow> bool" where
  "zero_in_bounds fs name =
     (case get_by_key fs name of
        Inr f \<Rightarrow> (case feature_bounds f of Inr b \<Rightarrow> fst b \<le> 0 \<and> 0 \<le> snd b | Inl _ \<Rightarrow> False)
      | Inl _ \<Rightarrow> False)"

definition zero_strictly_in_bounds :: "feature list \<Rightarrow> string \<Rightarrow> bool" where
  "zero_strictly_in_bounds fs name =
     (case get_by_key fs name of
        Inr f \<Rightarrow> (case feature_bounds f of Inr b \<Rightarrow> fst b < 0 \<and> 0 < snd b | Inl _ \<Rightarrow> False)
      | Inl _ \<Rightarrow> False)"

definition nchoosek_of :: "domain \<Rightarrow> constraint list" where
  "nchoosek_of d = filter is_nchoosek (constraints d)"

definition nchoosek_features_continuous :: "domain \<Rightarrow> bool" where
  "nchoosek_features_continuous d =
     list_all (\<lambda>c. list_all (continuous_key (inputs d)) (features c)) (nchoosek_of d)"

definition some_zero_outside :: "domain \<Rightarrow> bool" where
  "some_zero_outside d =
     list_ex (\<lambda>c. list_ex (\<lambda>name. \<not> zero_in_bounds (inputs d) name) (features c)) (nchoosek_of d)"

definition some_shared_feature :: "domain \<Rightarrow> bool" where
  "some_shared_feature d =
     list_ex (\<lambda>c. list_ex (\<lambda>c'. c \<noteq> c' \<and> set (features c) \<inter> set (features c') \<noteq> {})
        (nchoosek_of d)) (nchoosek_of d)"

text \<open>Example domains: zero is an end point of the bounds of the constrained inputs
  (the domain of \<open>test_nchoosek_implemented\<close>); the same constraint listed twice; a lower
  bound above zero.\<close>

definition dom_zero_at_end :: domain where
  "dom_zero_at_end =
     \<lparr> inputs = [ContinuousInput ''x1'' (0, 1), ContinuousInput ''x2'' (0, 1),
                 ContinuousInput ''x3'' (0, 1)],
       constraints = [NChooseKConstraint [''x1'', ''x2'', ''x3''] 0 2 True] \<rparr>"

definition dom_twice :: domain where
  "dom_twice =
     \<lparr> inputs = [ContinuousInput ''x1'' (- 1, 1), ContinuousInput ''x2'' (- 1, 1)],
       constraints = [NChooseKConstraint [''x1'', ''x2''] 0 1 True,
                      NChooseKConstraint [''x1'', ''x2''] 0 1 True] \<rparr>"

definition dom_positive :: domain where
  "dom_positive =
     \<lparr> inputs = [ContinuousInput ''x1'' (1, 2), ContinuousInput ''x2'' (- 1, 1)],
       constraints = [NChooseKConstraint [''x1'', ''x2''] 0 1 True] \<rparr>"

section \<open>NChooseK constraints as bounds: the bounds\<close>

text \<open>\<open>itertools.combinations(xs, r)\<close>: the sublists of length \<open>r\<close>, in the order of
  the positions.\<close>

fun combinations :: "'a list \<Rightarrow> nat \<Rightarrow> 'a list list" where
  "combinations xs 0 = [[]]"
| "combinations [] (Suc r) = []"
| "combinations (x # xs) (Suc r) = map ((#) x) (combinations xs r) @ combinations xs (Suc r)"

text \<open>The positions of the features of a constraint among the keys of the inputs.\<close>

definition key_positions :: "string list \<Rightarrow> constraint \<Rightarrow> nat list" where
  "key_positions keys c = filter (\<lambda>i. keys ! i \<in> set (features c)) [0 ..< length keys]"

definition n_inactive :: "constraint \<Rightarrow> int" where
  "n_inactive c = int (length (features c)) - max_count c"

text \<open>
  The loop \<open>for i in range(n_experiments)\<close> for one constraint: the rows
  \<open>ind_vanish + i * D\<close> of the bounds are set to \<open>(0, 0)\<close>. \<open>i % len(ind)\<close> raises when
  there is no combination; an index array must be of integer type, and the array of the
  combinations of length zero (\<open>np.array([()])\<close>) is not; a row beyond the bounds raises.
\<close>

fun pin_rows ::
  "nat list list \<Rightarrow> nat \<Rightarrow> nat list \<Rightarrow> (real \<times> real) list \<Rightarrow> error + (real \<times> real) list" where
  "pin_rows ind D [] b = Inr b"
| "pin_rows ind D (i # is) b =
     (if length ind = 0 then Inl ZeroDivisionError
      else if ind ! (i mod length ind) = [] then Inl IndexError
      else if list_ex (\<lambda>j. length b \<le> j + i * D) (ind ! (i mod length ind)) then Inl IndexError
      else pin_rows ind D is
             (fold (\<lambda>j b. b[j + i * D := (0, 0)]) (ind ! (i mod length ind)) b))"

text \<open>
  The loop over the constraints. \<open>np.random.shuffle\<close> is the parameter \<open>shuffle\<close>: from
  the state of the random generator and the array of combinations it gives the shuffled
  array and the next state. \<open>combinations\<close> raises for a negative length.
\<close>

fun bounds_loop ::
  "('g \<Rightarrow> nat list list \<Rightarrow> nat list list \<times> 'g) \<Rightarrow> string list \<Rightarrow> nat \<Rightarrow> nat
     \<Rightarrow> constraint list \<Rightarrow> 'g \<Rightarrow> (real \<times> real) list \<Rightarrow> error + (real \<times> real) list" where
  "bounds_loop shuffle keys D n [] g b = Inr b"
| "bounds_loop shuffle keys D n (c # cs) g b =
     (if is_nchoosek c then
        (if n_inactive c < 0 then Inl ValueError
         else
           then_do
             (pin_rows (fst (shuffle g (combinations (key_positions keys c) (nat (n_inactive c)))))
                D [0 ..< n] b)
             (\<lambda>b'. bounds_loop shuffle keys D n cs
                      (snd (shuffle g (combinations (key_positions keys c) (nat (n_inactive c))))) b'))
      else bounds_loop shuffle keys D n cs g b)"

text \<open>\<open>nchoosek_constraints_as_bounds\<close> (\<open>strategies/doe/utils.py\<close>): the bounds of the
  continuous inputs, once per experiment, with the rows of the inactive features pinned.\<close>

definition nchoosek_constraints_as_bounds ::
  "('g \<Rightarrow> nat list list \<Rightarrow> nat list list \<times> 'g) \<Rightarrow> domain \<Rightarrow> nat \<Rightarrow> 'g
     \<Rightarrow> error + (real \<times> real) list" where
  "nchoosek_constraints_as_bounds shuffle d n_experiments g =
     then_do (check_nchoosek_constraints_as_bounds d) (\<lambda>_.
       if 0 < length (constraints d) then
         bounds_loop shuffle (get_keys (inputs d)) (length (inputs d)) n_experiments
           (constraints d) g
           (concat (replicate n_experiments (map bounds (get_features is_continuous (inputs d)))))
       else
         Inr (concat (replicate n_experiments (map bounds (get_features is_continuous (inputs d))))))"








definition rev_shuffle :: "unit \<Rightarrow> nat list list \<Rightarrow> nat list list \<times> unit" where
  "rev_shuffle g xs = (rev xs, g)"

definition rot_shuffle :: "unit \<Rightarrow> nat list list \<Rightarrow> nat list list \<times> unit" where
  "rot_shuffle g xs = (rotate 2 xs, g)"

definition dom_three :: domain where
  "dom_three =
     \<lparr> inputs = [ContinuousInput ''x3'' (- 3, 3), ContinuousInput ''x1'' (- 1, 1),
                 ContinuousInput ''x2'' (- 2, 2)],
       constraints = [NChooseKConstraint [''x1'', ''x2'', ''x3''] 0 2 True] \<rparr>"


definition dom_mixed :: domain where
  "dom_mixed =
     \<lparr> inputs = [ContinuousInput ''x1'' (0, 1), ContinuousInput ''x2'' (0, 1),
                 ContinuousInput ''x3'' (0, 1), CategoricalInput ''c'' [''a'', ''b''] [True, True]],
       constraints = [NChooseKConstraint [''x1'', ''x2'', ''x3''] 0 1 True] \<rparr>"

section \<open>Formula builder\<close>

text \<open>The keyword formulas are strings; every term is followed by \<open>" + "\<close>. The features
  are visited in the stored order, the interaction terms use the sorted keys.\<close>

definition linear_terms :: "domain \<Rightarrow> string" where
  "linear_terms d = concat (map (\<lambda>input. key input @ '' + '') (inputs d))"

definition quadratic_terms :: "domain \<Rightarrow> string" where
  "quadratic_terms d = concat (map (\<lambda>input. ''{'' @ key input @ ''**2} + '') (inputs d))"

definition interaction_terms :: "domain \<Rightarrow> string" where
  "interaction_terms d =
     concat (map (\<lambda>i. concat (map (\<lambda>j. get_keys (inputs d) ! j @ '':'' @ get_keys (inputs d) ! i @ '' + '')
                                 [0 ..< i]))
                 [0 ..< length (inputs d)])"

text \<open>The four keyword functions assert that a domain is given.\<close>

definition linear_formula :: "domain option \<Rightarrow> error + string" where
  "linear_formula domn =
     (case domn of None \<Rightarrow> Inl AssertionError | Some d \<Rightarrow> Inr (linear_terms d))"

definition linear_and_quadratic_formula :: "domain option \<Rightarrow> error + string" where
  "linear_and_quadratic_formula domn =
     (case domn of None \<Rightarrow> Inl AssertionError
      | Some d \<Rightarrow> Inr (linear_terms d @ quadratic_terms d))"

definition linear_and_interactions_formula :: "domain option \<Rightarrow> error + string" where
  "linear_and_interactions_formula domn =
     (case domn of None \<Rightarrow> Inl AssertionError
      | Some d \<Rightarrow> Inr (linear_terms d @ interaction_terms d))"

definition fully_quadratic_formula :: "domain option \<Rightarrow> error + string" where
  "fully_quadratic_formula domn =
     (case domn of None \<Rightarrow> Inl AssertionError
      | Some d \<Rightarrow> Inr (linear_terms d @ interaction_terms d @ quadratic_terms d))"

text \<open>The argument \<open>model_type\<close> is a string or an already built formula.\<close>

datatype 'f model_type = ModelString string | ModelFormula 'f

text \<open>\<open>s[:-3]\<close>: the string without its last three characters.\<close>

definition drop_last3 :: "string \<Rightarrow> string" where
  "drop_last3 s = take (length s - 3) s"

text \<open>
  \<open>get_formula_from_string\<close>. The parser of the formulaic library is the parameter
  \<open>Formula\<close>: it returns a formula or raises; \<open>rhs_of\<close> is the formula's \<open>rhs\<close>
  attribute where it has one.
\<close>

definition get_formula_from_string ::
  "(string \<Rightarrow> error + 'f) \<Rightarrow> ('f \<Rightarrow> 'f option) \<Rightarrow> 'f model_type \<Rightarrow> domain option \<Rightarrow> bool
     \<Rightarrow> error + 'f" where
  "get_formula_from_string Formula rhs_of model_type domn rhs_only =
     (case model_type of
        ModelFormula f \<Rightarrow> Inr f
      | ModelString s \<Rightarrow>
          then_do
            (if s = ''linear'' then linear_formula domn
             else if s = ''linear-and-quadratic'' then linear_and_quadratic_formula domn
             else if s = ''linear-and-interactions'' then linear_and_interactions_formula domn
             else if s = ''fully-quadratic'' then fully_quadratic_formula domn
             else Inr (s @ ''   ''))
            (\<lambda>formula.
               then_do (Formula (drop_last3 formula))
                 (\<lambda>f. Inr (if rhs_only then (case rhs_of f of Some r \<Rightarrow> r | None \<Rightarrow> f) else f))))"

definition formula_keywords :: "string list" where
  "formula_keywords = [''linear'', ''linear-and-quadratic'', ''linear-and-interactions'', ''fully-quadratic'']"

text \<open>A toy parser for the examples: it rejects an unbalanced opening parenthesis.\<close>

definition toy_parser :: "string \<Rightarrow> error + string" where
  "toy_parser s = (if s = ''('' then Inl (ExternalError ''FormulaSyntaxError'') else Inr s)"

section \<open>Polytope sampler\<close>

text \<open>A table of samples: the columns in order, each with its key and its cells.\<close>

datatype cell = Num npfloat | Cat string

type_synonym table = "(string \<times> cell list) list"

text \<open>The two calls of \<open>warnings.warn\<close> in \<open>_sample_from_polytope\<close>.\<close>

datatype warning = NothingToSample | NotUnique

text \<open>A linear constraint in index form: indices, coefficients, right-hand side.\<close>

type_synonym lin = "nat list \<times> real list \<times> real"

fun is_fixed :: "feature \<Rightarrow> bool" where
  "is_fixed (ContinuousInput _ b) = (fst b = snd b)"
| "is_fixed (DiscreteInput _ vs) = (Min (set vs) = Max (set vs))"
| "is_fixed (CategoricalInput _ _ al) = (length (filter id al) = 1)"

text \<open>\<open>feat.fixed_value() * coefficient\<close>: numeric for numerical inputs, a TypeError
  for the category name of a categorical input.\<close>

fun numeric_fixed_value :: "feature \<Rightarrow> error + real" where
  "numeric_fixed_value (ContinuousInput _ b) = Inr (fst b)"
| "numeric_fixed_value (DiscreteInput _ vs) = Inr (Min (set vs))"
| "numeric_fixed_value (CategoricalInput _ _ _) = Inl TypeError"

text \<open>\<open>feat.lower_bound\<close> and \<open>feat.upper_bound\<close>: a categorical input has neither.\<close>

fun lower_upper :: "feature \<Rightarrow> error + real \<times> real" where
  "lower_upper (ContinuousInput _ b) = Inr b"
| "lower_upper (DiscreteInput _ vs) = Inr (Min (set vs), Max (set vs))"
| "lower_upper (CategoricalInput _ _ _) = Inl AttributeError"

text \<open>A comprehension whose body may raise: the first exception ends it.\<close>

fun map_err :: "('a \<Rightarrow> error + 'b) \<Rightarrow> 'a list \<Rightarrow> error + 'b list" where
  "map_err f [] = Inr []"
| "map_err f (x # xs) =
     then_do (f x) (\<lambda>y. then_do (map_err f xs) (\<lambda>ys. Inr (y # ys)))"

text \<open>\<open>list.index\<close>: the first position of an element, a ValueError without one.\<close>

definition list_index :: "'a list \<Rightarrow> 'a \<Rightarrow> error + nat" where
  "list_index xs x =
     (if x \<in> set xs then Inr (length (takeWhile (\<lambda>y. y \<noteq> x) xs)) else Inl ValueError)"

text \<open>The loop of \<open>get_linear_constraints\<close> over the features of one constraint: a
  fixed feature moves to the right-hand side, a free one keeps its index and coefficient.\<close>

fun collect_linear_terms ::
  "feature list \<Rightarrow> real list \<Rightarrow> (nat \<times> string) list \<Rightarrow> lin \<Rightarrow> error + lin" where
  "collect_linear_terms fs cs [] acc = Inr acc"
| "collect_linear_terms fs cs ((i, featkey) # rest) acc =
     then_do (list_index (get_keys fs) featkey) (\<lambda>idx.
     then_do (get_by_key fs featkey) (\<lambda>feat.
       if is_fixed feat then
         (if length cs \<le> i then Inl IndexError
          else then_do (numeric_fixed_value feat) (\<lambda>v.
                 collect_linear_terms fs cs rest
                   (fst acc, fst (snd acc), snd (snd acc) - v * cs ! i)))
       else
         then_do (lower_upper feat) (\<lambda>_.
           if length cs \<le> i then Inl IndexError
           else collect_linear_terms fs cs rest
                  (fst acc @ [idx], fst (snd acc) @ [cs ! i], snd (snd acc)))))"

fun collect_constraints :: "feature list \<Rightarrow> constraint list \<Rightarrow> error + lin list" where
  "collect_constraints fs [] = Inr []"
| "collect_constraints fs (c # cs) =
     then_do (collect_linear_terms fs (coefficients c) (enumerate 0 (features c)) ([], [], 0))
       (\<lambda>t. then_do (collect_constraints fs cs)
          (\<lambda>ts. Inr ((fst t, fst (snd t), - (snd (snd t) + rhs c)) # ts)))"

fun is_linear_equality :: "constraint \<Rightarrow> bool" where
  "is_linear_equality (LinearEqualityConstraint _ _ _) = True"
| "is_linear_equality _ = False"

fun is_linear_inequality :: "constraint \<Rightarrow> bool" where
  "is_linear_inequality (LinearInequalityConstraint _ _ _) = True"
| "is_linear_inequality _ = False"

text \<open>\<open>get_linear_constraints\<close> (\<open>utils/torch_tools.py\<close>) with \<open>unit_scaled = False\<close>,
  for the constraints of one class.\<close>

definition get_linear_constraints :: "domain \<Rightarrow> (constraint \<Rightarrow> bool) \<Rightarrow> error + lin list" where
  "get_linear_constraints d cls = collect_constraints (inputs d) (filter cls (constraints d))"

text \<open>The continuous inputs that are fixed, as the initial \<open>fixed_features\<close> dict.\<close>

definition fixed_continuous :: "domain \<Rightarrow> (string \<times> npfloat) list" where
  "fixed_continuous d =
     dict_comp (\<lambda>feat. (key feat, Fin (fst (bounds feat))))
       (filter is_fixed (get_features is_continuous (inputs d)))"

text \<open>The loop over the equalities: one with a single coefficient fixes its feature
  (a pseudo-fixed feature), the others are kept.\<close>

fun pseudo_fixed ::
  "string list \<Rightarrow> lin list \<Rightarrow> (string \<times> npfloat) list \<times> lin list
     \<Rightarrow> error + (string \<times> npfloat) list \<times> lin list" where
  "pseudo_fixed cont_keys [] acc = Inr acc"
| "pseudo_fixed cont_keys (eq # eqs) acc =
     (if length (fst eq) = 1 then
        (if length cont_keys \<le> hd (fst eq) then Inl IndexError
         else if fst (snd eq) = [] then Inl IndexError
         else pseudo_fixed cont_keys eqs
                (dict_set (fst acc) (cont_keys ! hd (fst eq))
                   (np_div (snd (snd eq)) (hd (fst (snd eq)))), snd acc))
      else pseudo_fixed cont_keys eqs (fst acc, snd acc @ [eq]))"

text \<open>The first stage of \<open>_sample_from_polytope\<close>: the fixed features and the
  cleaned equalities.\<close>

definition fixed_features_of :: "domain \<Rightarrow> error + (string \<times> npfloat) list \<times> lin list" where
  "fixed_features_of d =
     then_do (get_linear_constraints d is_linear_equality) (\<lambda>eqs.
       pseudo_fixed (map key (get_features is_continuous (inputs d))) eqs
         (fixed_continuous d, []))"

text \<open>The continuous inputs that are not fixed.\<close>

definition free_continuous :: "domain \<Rightarrow> (string \<times> npfloat) list \<Rightarrow> feature list" where
  "free_continuous d fixed_features =
     filter (\<lambda>feat. key feat \<notin> set (map fst fixed_features))
       (get_features is_continuous (inputs d))"

text \<open>
  The routines of botorch, pandas and the random generator that the sampler calls:
  the fallback sampler of the inputs, the interpoint constraints, the rewriting of
  constraints around fixed features, the hit-and-run sampler (it returns the rows of
  candidates) and the sampling of one categorical or discrete input.
\<close>

record ('ip, 'uc) sampler_env =
  fallback_sample :: "domain \<Rightarrow> nat \<Rightarrow> error + table"
  interpoint :: "domain \<Rightarrow> nat \<Rightarrow> 'ip list"
  unfix_lin :: "lin list \<Rightarrow> bool \<Rightarrow> (nat \<times> npfloat) list \<Rightarrow> nat \<Rightarrow> error + 'uc list"
  unfix_interpoint :: "'ip list \<Rightarrow> bool \<Rightarrow> (nat \<times> npfloat) list \<Rightarrow> nat \<Rightarrow> error + 'uc list"
  hit_and_run :: "real list \<times> real list \<Rightarrow> 'uc list option \<Rightarrow> 'uc list option \<Rightarrow> nat
                    \<Rightarrow> error + real list list"
  feat_sample :: "feature \<Rightarrow> nat \<Rightarrow> cell list"

text \<open>\<open>fixed_features_indices\<close>: the position of every fixed key among the
  continuous keys.\<close>

definition fixed_indices :: "string list \<Rightarrow> (string \<times> npfloat) list \<Rightarrow> error + (nat \<times> npfloat) list" where
  "fixed_indices cont_keys fixed_features =
     then_do (map_err (\<lambda>kv. then_do (list_index cont_keys (fst kv)) (\<lambda>i. Inr (i, snd kv)))
                fixed_features)
       (\<lambda>ps. Inr (dict_comp id ps))"

text \<open>The hit-and-run stage: the candidates drawn for the free continuous inputs.\<close>

definition polytope_candidates ::
  "('ip, 'uc) sampler_env \<Rightarrow> domain \<Rightarrow> nat \<Rightarrow> (string \<times> npfloat) list \<Rightarrow> lin list \<Rightarrow> lin list
     \<Rightarrow> (nat \<times> npfloat) list \<Rightarrow> error + real list list" where
  "polytope_candidates env d n fixed_features cleaned_eqs ineqs fixed_features_indices =
     (let free = free_continuous d fixed_features;
          dimension = length (get_features is_continuous (inputs d))
      in
      then_do (unfix_lin env ineqs False fixed_features_indices dimension) (\<lambda>unfixed_ineqs.
      then_do (unfix_lin env cleaned_eqs True fixed_features_indices dimension) (\<lambda>unfixed_eqs.
      then_do (unfix_interpoint env (interpoint env d n) True fixed_features_indices dimension)
        (\<lambda>unfixed_interpoints.
      let combined_eqs = unfixed_eqs @ unfixed_interpoints in
      hit_and_run env (map (\<lambda>f. fst (bounds f)) free, map (\<lambda>f. snd (bounds f)) free)
        (if 0 < length unfixed_ineqs then Some unfixed_ineqs else None)
        (if 0 < length combined_eqs then Some combined_eqs else None) n))))"

fun is_categorical_or_discrete :: "feature \<Rightarrow> bool" where
  "is_categorical_or_discrete (ContinuousInput _ _) = False"
| "is_categorical_or_discrete _ = True"

text \<open>The end of \<open>_sample_from_polytope\<close>: the columns of the categorical and discrete
  inputs, then the columns of the fixed features.\<close>

definition complete_table :: "('ip, 'uc) sampler_env \<Rightarrow> domain \<Rightarrow> nat \<Rightarrow> (string \<times> npfloat) list
     \<Rightarrow> table \<Rightarrow> table" where
  "complete_table env d n fixed_features samples =
     foldl (\<lambda>t kv. dict_set t (fst kv) (replicate n (Num (snd kv))))
       (foldl (\<lambda>t feat. dict_set t (key feat) (feat_sample env feat n)) samples
          (get_features is_categorical_or_discrete (inputs d)))
       fixed_features"

text \<open>
  \<open>PolytopeSampler._sample_from_polytope\<close>. The result is the list of warnings issued
  and the table returned, or the exception raised.
\<close>

definition sample_from_polytope ::
  "('ip, 'uc) sampler_env \<Rightarrow> domain \<Rightarrow> nat \<Rightarrow> error + warning list \<times> table" where
  "sample_from_polytope env d n =
     (if length (constraints d) = 0 then
        then_do (fallback_sample env d n) (\<lambda>t. Inr ([], t))
      else
        then_do (fixed_features_of d) (\<lambda>ff.
        let fixed_features = fst ff; cleaned_eqs = snd ff in
        then_do (fixed_indices (map key (get_features is_continuous (inputs d))) fixed_features)
          (\<lambda>fixed_features_indices.
        then_do (get_linear_constraints d is_linear_inequality) (\<lambda>ineqs.
        let free = free_continuous d fixed_features in
        then_do
          (if length free = 0 then
             Inr ([NothingToSample],
                  map (\<lambda>k. (k, replicate n (Num NaN))) (get_keys (inputs d)))
           else
             then_do (polytope_candidates env d n fixed_features cleaned_eqs ineqs
                        fixed_features_indices) (\<lambda>candidates.
               let ws = (if card (set candidates) \<noteq> n \<and> 1 < n then [NotUnique] else []) in
               if length candidates \<noteq> n
                  \<or> list_ex (\<lambda>row. length row \<noteq> length free) candidates
               then Inl ValueError
               else Inr (ws, map (\<lambda>j. (key (free ! j), map (\<lambda>row. Num (Fin (row ! j))) candidates))
                               [0 ..< length free])))
          (\<lambda>r. Inr (fst r, complete_table env d n fixed_features (snd r)))))))"


text \<open>
  Vocabulary of the property. A key is pseudo-fixed when a linear equality in index form
  has a single coefficient left and its index is the position of the key among the
  continuous keys.
\<close>

definition pseudo_fixed_keys :: "string list \<Rightarrow> lin list \<Rightarrow> string list" where
  "pseudo_fixed_keys cont_keys eqs =
     map (\<lambda>eq. cont_keys ! hd (fst eq)) (filter (\<lambda>eq. length (fst eq) = 1) eqs)"

text \<open>A key is fixed: it is the key of a continuous input whose lower and upper bound
  coincide, or it is pseudo-fixed.\<close>

definition key_fixed :: "domain \<Rightarrow> lin list \<Rightarrow> string \<Rightarrow> bool" where
  "key_fixed d eqs k =
     (list_ex (\<lambda>g. is_continuous g \<and> fst (bounds g) = snd (bounds g) \<and> key g = k) (inputs d)
      \<or> k \<in> set (pseudo_fixed_keys (map key (get_features is_continuous (inputs d))) eqs))"

text \<open>All continuous variables are fixed.\<close>

definition all_continuous_fixed :: "domain \<Rightarrow> lin list \<Rightarrow> bool" where
  "all_continuous_fixed d eqs =
     list_all (\<lambda>f. is_continuous f \<longrightarrow> key_fixed d eqs (key f)) (inputs d)"

text \<open>Examples: two continuous inputs fixed by their bounds under a linear inequality;
  one input fixed and the other pinned by a linear equality; two free inputs; a fixed input
  in a domain without constraints. The external routines are stubs: one hit-and-run stub
  returns the same row \<open>n\<close> times, the other returns \<open>n\<close> different rows.\<close>

definition dom_all_fixed :: domain where
  "dom_all_fixed =
     \<lparr> inputs = [ContinuousInput ''x1'' (1, 1), ContinuousInput ''x2'' (2, 2)],
       constraints = [LinearInequalityConstraint [''x1'', ''x2''] [1, 1] 5] \<rparr>"

definition dom_pseudo_fixed :: domain where
  "dom_pseudo_fixed =
     \<lparr> inputs = [ContinuousInput ''x1'' (0, 1), ContinuousInput ''x2'' (2, 2)],
       constraints = [LinearEqualityConstraint [''x1'', ''x2''] [1, 1] 3] \<rparr>"

definition dom_free :: domain where
  "dom_free =
     \<lparr> inputs = [ContinuousInput ''x1'' (0, 1), ContinuousInput ''x2'' (0, 1)],
       constraints = [LinearInequalityConstraint [''x1'', ''x2''] [1, 1] 1] \<rparr>"

definition dom_fixed_unconstrained :: domain where
  "dom_fixed_unconstrained = \<lparr> inputs = [ContinuousInput ''x1'' (1, 1)], constraints = [] \<rparr>"

definition stub_env :: "(unit, unit) sampler_env" where
  "stub_env =
     \<lparr> fallback_sample = (\<lambda>d n. Inr (map (\<lambda>k. (k, replicate n (Num (Fin 1)))) (get_keys (inputs d)))),
       interpoint = (\<lambda>d n. []),
       unfix_lin = (\<lambda>cs eq fixed dimension. Inr []),
       unfix_interpoint = (\<lambda>cs eq fixed dimension. Inr []),
       hit_and_run = (\<lambda>b ineqs eqs n. Inr (replicate n (map (\<lambda>_. 0) (fst b)))),
       feat_sample = (\<lambda>feat n. replicate n (Cat ''a'')) \<rparr>"

definition stub_env_distinct :: "(unit, unit) sampler_env" where
  "stub_env_distinct =
     stub_env \<lparr> hit_and_run := (\<lambda>b ineqs eqs n. Inr (map (\<lambda>i. map (\<lambda>_. real i) (fst b)) [0 ..< n])) \<rparr>"

section \<open>PolytopeSampler._ask on a store of objects\<close>

text \<open>
  The domain of a sampler and its input features are mutable objects. The store holds
  them; an address is a position in the store. A domain object refers to its input
  features by address and holds its constraints.
\<close>

datatype obj = FeatureObj feature | DomainObj "nat list" "constraint list"

type_synonym store = "obj list"

definition alloc :: "store \<Rightarrow> obj \<Rightarrow> nat \<times> store" where
  "alloc s ob = (length s, s @ [ob])"

definition read_feature :: "store \<Rightarrow> nat \<Rightarrow> error + feature" where
  "read_feature s a =
     (if a < length s then (case s ! a of FeatureObj f \<Rightarrow> Inr f | DomainObj _ _ \<Rightarrow> Inl AttributeError)
      else Inl AttributeError)"

definition read_domain_obj :: "store \<Rightarrow> nat \<Rightarrow> error + nat list \<times> constraint list" where
  "read_domain_obj s a =
     (if a < length s then (case s ! a of DomainObj ins cs \<Rightarrow> Inr (ins, cs) | FeatureObj _ \<Rightarrow> Inl AttributeError)
      else Inl AttributeError)"

text \<open>The domain at an address as a value: what the sampler sees when it reads it.\<close>

definition read_domain :: "store \<Rightarrow> nat \<Rightarrow> error + domain" where
  "read_domain s a =
     then_do (read_domain_obj s a) (\<lambda>ob.
     then_do (map_err (read_feature s) (fst ob)) (\<lambda>fs.
       Inr \<lparr> inputs = fs, constraints = snd ob \<rparr>))"

text \<open>\<open>deepcopy\<close> of the features of a domain: every feature object is copied to a fresh
  address; the memo keeps an object that is referred to twice shared in the copy.\<close>

fun copy_features ::
  "store \<Rightarrow> (nat \<times> nat) list \<Rightarrow> nat list \<Rightarrow> error + nat list \<times> store" where
  "copy_features s memo [] = Inr ([], s)"
| "copy_features s memo (a # as) =
     (case map_of memo a of
        Some a' \<Rightarrow>
          then_do (copy_features s memo as) (\<lambda>r. Inr (a' # fst r, snd r))
      | None \<Rightarrow>
          then_do (read_feature s a) (\<lambda>f.
            then_do (copy_features (snd (alloc s (FeatureObj f)))
                       ((a, fst (alloc s (FeatureObj f))) # memo) as)
              (\<lambda>r. Inr (fst (alloc s (FeatureObj f)) # fst r, snd r))))"

text \<open>\<open>deepcopy(self.domain)\<close>: the address of the copy and the new store.\<close>

definition deepcopy_domain :: "store \<Rightarrow> nat \<Rightarrow> error + nat \<times> store" where
  "deepcopy_domain s a =
     then_do (read_domain_obj s a) (\<lambda>ob.
     then_do (copy_features s [] (fst ob)) (\<lambda>r.
       Inr (alloc (snd r) (DomainObj (fst r) (snd ob)))))"

text \<open>\<open>domain.inputs.get_by_key(key)\<close> on the store: the address of the feature.\<close>

definition addr_by_key :: "store \<Rightarrow> nat list \<Rightarrow> string \<Rightarrow> error + nat" where
  "addr_by_key s ins k =
     then_do (map_err (\<lambda>a. then_do (read_feature s a) (\<lambda>f. Inr (key f, a))) ins) (\<lambda>kas.
       case map_of (rev kas) k of None \<Rightarrow> Inl KeyError | Some a \<Rightarrow> Inr a)"

text \<open>The loop \<open>for key in u\<close>: the bounds of every unused feature are set to
  \<open>(0, 0)\<close>, in place. The store is returned also when the loop raises.\<close>

fun pin_unused :: "store \<Rightarrow> nat list \<Rightarrow> string list \<Rightarrow> (error + unit) \<times> store" where
  "pin_unused s ins [] = (Inr (), s)"
| "pin_unused s ins (k # ks) =
     (case addr_by_key s ins k of
        Inl e \<Rightarrow> (Inl e, s)
      | Inr a \<Rightarrow>
          (case read_feature s a of
             Inl e \<Rightarrow> (Inl e, s)
           | Inr feat \<Rightarrow>
               if \<not> is_continuous feat then (Inl AssertionError, s)
               else pin_unused (s[a := FeatureObj (ContinuousInput (key feat) (0, 0))]) ins ks))"

text \<open>
  The body of the loop over the sampled combinations: copy the domain, drop the NChooseK
  constraints of the copy, pin the unused features of the copy, sample from the copy.

  Modelled from the spec: \<open>Strategy.ask\<close> and the constructor behind \<open>duplicate\<close> are not
  among the sources; the specification has the sampler "clone the domain with those
  features pinned to zero and recurse". The domain of the duplicate holds no NChooseK
  constraint, so its \<open>_ask\<close> is \<open>_sample_from_polytope\<close> on the copy.
\<close>

definition sample_combination ::
  "('ip, 'uc) sampler_env \<Rightarrow> store \<Rightarrow> nat \<Rightarrow> string list \<Rightarrow> nat
     \<Rightarrow> (error + warning list \<times> table) \<times> store" where
  "sample_combination env s a u num =
     (case deepcopy_domain s a of
        Inl e \<Rightarrow> (Inl e, s)
      | Inr r \<Rightarrow>
          (case read_domain_obj (snd r) (fst r) of
             Inl e \<Rightarrow> (Inl e, snd r)
           | Inr ob \<Rightarrow>
               (case pin_unused
                       ((snd r)[fst r := DomainObj (fst ob) (filter (\<lambda>c. \<not> is_nchoosek c) (snd ob))])
                       (fst ob) u of
                  (Inl e, s3) \<Rightarrow> (Inl e, s3)
                | (Inr _, s3) \<Rightarrow>
                    (then_do (read_domain s3 (fst r)) (\<lambda>d'. sample_from_polytope env d' num), s3))))"

fun sample_combinations ::
  "('ip, 'uc) sampler_env \<Rightarrow> store \<Rightarrow> nat \<Rightarrow> string list list \<Rightarrow> nat
     \<Rightarrow> (warning list \<times> table) list \<Rightarrow> (error + (warning list \<times> table) list) \<times> store" where
  "sample_combinations env s a [] num acc = (Inr acc, s)"
| "sample_combinations env s a (u # us) num acc =
     (case sample_combination env s a u num of
        (Inl e, s') \<Rightarrow> (Inl e, s')
      | (Inr r, s') \<Rightarrow> sample_combinations env s' a us num (acc @ [r]))"

text \<open>
  What \<open>_ask\<close> takes from the domain class, the random generator and pandas: the unused
  feature combinations of the NChooseK constraints, the random choice of positions, and
  the concatenation of the tables with the final draw of rows.
\<close>

record ask_env =
  nchoosek_unused :: "domain \<Rightarrow> string list list"
  choice :: "nat \<Rightarrow> nat \<Rightarrow> nat list"
  concat_and_sample :: "table list \<Rightarrow> nat \<Rightarrow> error + table"

text \<open>\<open>math.ceil(a / b)\<close> on natural numbers.\<close>

definition ceil_div :: "nat \<Rightarrow> nat \<Rightarrow> nat" where
  "ceil_div a b = (a + b - 1) div b"

text \<open>\<open>PolytopeSampler._ask\<close>: the result and the store after the call.\<close>

definition ask ::
  "('ip, 'uc) sampler_env \<Rightarrow> ask_env \<Rightarrow> store \<Rightarrow> nat \<Rightarrow> nat
     \<Rightarrow> (error + warning list \<times> table) \<times> store" where
  "ask env aenv s a candidate_count =
     (case read_domain s a of
        Inl e \<Rightarrow> (Inl e, s)
      | Inr d \<Rightarrow>
          if 0 < length (filter is_nchoosek (constraints d)) then
            (let unused = nchoosek_unused aenv d in
             if candidate_count \<le> length unused then
               (case map_err (\<lambda>i. if i < length unused then Inr (unused ! i) else Inl IndexError)
                       (choice aenv (length unused) candidate_count) of
                  Inl e \<Rightarrow> (Inl e, s)
                | Inr sampled_combinations \<Rightarrow>
                    (case sample_combinations env s a sampled_combinations 1 [] of
                       (Inl e, s') \<Rightarrow> (Inl e, s')
                     | (Inr rs, s') \<Rightarrow>
                         (then_do (concat_and_sample aenv (map snd rs) candidate_count)
                            (\<lambda>t. Inr (concat (map fst rs), t)), s')))
             else if length unused = 0 then (Inl ZeroDivisionError, s)
             else
               (case sample_combinations env s a unused
                       (ceil_div candidate_count (length unused)) [] of
                  (Inl e, s') \<Rightarrow> (Inl e, s')
                | (Inr rs, s') \<Rightarrow>
                    (then_do (concat_and_sample aenv (map snd rs) candidate_count)
                       (\<lambda>t. Inr (concat (map fst rs), t)), s')))
          else (sample_from_polytope env d candidate_count, s))"

text \<open>The cells of the first store are still there, unchanged, in the second.\<close>

definition store_preserved :: "store \<Rightarrow> store \<Rightarrow> bool" where
  "store_preserved s s' = (take (length s) s' = s)"


text \<open>Example: a domain of two continuous inputs with one NChooseK constraint, in a
  store of three objects; stubs for the routines of the domain class and of pandas.\<close>

definition store0 :: store where
  "store0 =
     [DomainObj [1, 2] [NChooseKConstraint [''x1'', ''x2''] 0 1 True],
      FeatureObj (ContinuousInput ''x1'' (0, 1)),
      FeatureObj (ContinuousInput ''x2'' (0, 1))]"

definition dom0 :: domain where
  "dom0 = \<lparr> inputs = [ContinuousInput ''x1'' (0, 1), ContinuousInput ''x2'' (0, 1)],
            constraints = [NChooseKConstraint [''x1'', ''x2''] 0 1 True] \<rparr>"

definition stub_ask_env :: ask_env where
  "stub_ask_env =
     \<lparr> nchoosek_unused = (\<lambda>d. [[''x1''], [''x2'']]),
       choice = (\<lambda>n k. [0 ..< k]),
       concat_and_sample = (\<lambda>ts n. Inr (concat ts)) \<rparr>"

section \<open>One-hot encoding of a categorical input\<close>

definition CAT_SEP :: string where
  "CAT_SEP = ''_''"

text \<open>A pandas series of strings with its name.\<close>

record series =
  name :: "string option"
  data :: "string list"

text \<open>The column label of a category: \<open>f"{self.key}{_CAT_SEP}{c}"\<close>.\<close>

definition cat_col :: "feature \<Rightarrow> string \<Rightarrow> string" where
  "cat_col f c = key f @ CAT_SEP @ c"

text \<open>
  \<open>CategoricalInput.to_onehot_encoding\<close>: a frame built from a dict with one column per
  category, holding \<open>1.0\<close> where the value is that category and \<open>0.0\<close> elsewhere.
\<close>

definition to_onehot_encoding :: "feature \<Rightarrow> series \<Rightarrow> real dataframe" where
  "to_onehot_encoding f values =
     (let cols = dict_comp (\<lambda>c. (cat_col f c, map (\<lambda>v. if v = c then 1 else 0) (data values)))
                   (categories f)
      in \<lparr> columns = map fst cols,
           rows = map (\<lambda>r. map (\<lambda>col. snd col ! r) cols) [0 ..< length (data values)] \<rparr>)"

text \<open>\<open>str.split(sep)\<close> for a one-character separator.\<close>

fun split_sep :: "char \<Rightarrow> string \<Rightarrow> string list" where
  "split_sep s [] = [[]]"
| "split_sep s (c # cs) =
     (if c = s then [] # split_sep s cs
      else (case split_sep s cs of [] \<Rightarrow> [[c]] | p # ps \<Rightarrow> (c # p) # ps))"

text \<open>Position of a label among the columns (the first one).\<close>

definition col_index :: "string list \<Rightarrow> string \<Rightarrow> nat" where
  "col_index cols l = length (takeWhile (\<lambda>c. c \<noteq> l) cols)"

text \<open>\<open>idxmax\<close> along a row: the position of the first maximal entry.\<close>

definition idxmax :: "real list \<Rightarrow> nat" where
  "idxmax xs = length (takeWhile (\<lambda>x. x \<noteq> Max (set xs)) xs)"

text \<open>
  \<open>CategoricalInput.from_onehot_encoding\<close>. The columns of the categories are selected,
  each row is mapped to the label of its first maximal entry, the label is split at every
  separator and the piece at position 1 is kept. The row-wise steps raise on a frame
  without rows (the \<open>.str\<close> accessor needs strings) and on an empty selection.
\<close>

definition from_onehot_encoding :: "feature \<Rightarrow> real dataframe \<Rightarrow> error + series" where
  "from_onehot_encoding f values =
     (let cat_cols = map (cat_col f) (categories f) in
      if list_ex (\<lambda>c. c \<notin> set (columns values)) cat_cols then Inl ValueError
      else if cat_cols = [] then Inl ValueError
      else if rows values = [] then Inl AttributeError
      else
        let labels = map (\<lambda>row. cat_cols ! idxmax (map (\<lambda>l. row ! col_index (columns values) l) cat_cols))
                       (rows values);
            pieces = map (split_sep (hd CAT_SEP)) labels
        in if list_all (\<lambda>p. length p < 2) pieces then Inl KeyError
           else Inr \<lparr> name = Some (key f), data = map (\<lambda>p. p ! 1) pieces \<rparr>)"

text \<open>Example features: a key that contains the separator, and one that does not.\<close>

definition cat_a_b :: feature where
  "cat_a_b = CategoricalInput ''a_b'' [''x'', ''y''] [True, True]"

definition cat_ab :: feature where
  "cat_ab = CategoricalInput ''ab'' [''x'', ''y''] [True, True]"

section \<open>Properties\<close>

subsection \<open>Linear constraints as scipy constraints\<close>

lemma map_of_dict_set: "map_of (dict_set d k v) = (map_of d)(k \<mapsto> v)"
  by (induction d k v rule: dict_set.induct) auto

lemma map_of_foldl_dict_set:
  "map_of (foldl (\<lambda>d x. dict_set d (fst (f x)) (snd (f x))) acc xs)
     = map_of acc ++ map_of (rev (map f xs))"
proof (induction xs arbitrary: acc)
  case Nil
  then show ?case by simp
next
  case (Cons x xs)
  have "map_of (foldl (\<lambda>d x. dict_set d (fst (f x)) (snd (f x))) (dict_set acc (fst (f x)) (snd (f x))) xs)
        = map_of (dict_set acc (fst (f x)) (snd (f x))) ++ map_of (rev (map f xs))"
    by (rule Cons.IH)
  also have "\<dots> = map_of acc ++ map_of (rev (map f (x # xs)))"
  proof (rule ext)
    fix k
    show "(map_of (dict_set acc (fst (f x)) (snd (f x))) ++ map_of (rev (map f xs))) k
          = (map_of acc ++ map_of (rev (map f (x # xs)))) k"
      by (cases "f x") (simp add: map_of_dict_set map_add_def split: option.splits)
  qed
  finally show ?case by simp
qed

lemma map_of_dict_comp: "map_of (dict_comp f xs) = map_of (rev (map f xs))"
  by (simp add: dict_comp_def map_of_foldl_dict_set)


lemma lhs_row_scaled:
  assumes "length fs \<le> length cs"
  shows "lhs_row keys (dict_comp (\<lambda>i. (fs ! i, g (cs ! i))) [0 ..< length fs])
         = map (\<lambda>name. case map_of (rev (zip fs cs)) name of None \<Rightarrow> Fin 0 | Some a \<Rightarrow> g a) keys"
proof -
  have "map (\<lambda>i. (fs ! i, g (cs ! i))) [0 ..< length fs] = map (\<lambda>(a, b). (a, g b)) (zip fs cs)"
    using assms by (intro nth_equalityI) simp_all
  then have "map_of (dict_comp (\<lambda>i. (fs ! i, g (cs ! i))) [0 ..< length fs])
             = map_of (map (\<lambda>(a, b). (a, g b)) (rev (zip fs cs)))"
    by (simp add: map_of_dict_comp rev_map)
  also have "\<dots> = map_option g \<circ> map_of (rev (zip fs cs))"
    by (rule map_of_map)
  finally show ?thesis
    by (simp add: lhs_row_def split: option.splits)
qed

lemma assign_slice_zeros:
  assumes "k < n" "length row = D"
  shows "assign_slice (replicate (D * n) z) (k * D) row
         = map (\<lambda>j. if k * D \<le> j \<and> j < (k + 1) * D then row ! (j - k * D) else z) [0 ..< D * n]"
proof -
  from assms(1) have "Suc k * D \<le> n * D"
    by (intro mult_le_mono1) simp
  then have le: "k * D + D \<le> D * n"
    by (simp add: mult.commute)
  then have kD: "min (k * D) (D * n) = k * D"
    by simp
  show ?thesis
  proof (rule nth_equalityI)
    show "length (assign_slice (replicate (D * n) z) (k * D) row)
          = length (map (\<lambda>j. if k * D \<le> j \<and> j < (k + 1) * D then row ! (j - k * D) else z) [0 ..< D * n])"
      using le kD assms(2) by (simp add: assign_slice_def)
  next
    fix j
    assume "j < length (assign_slice (replicate (D * n) z) (k * D) row)"
    then have j: "j < D * n"
      using le kD assms(2) by (simp add: assign_slice_def)
    show "assign_slice (replicate (D * n) z) (k * D) row ! j
          = map (\<lambda>j. if k * D \<le> j \<and> j < (k + 1) * D then row ! (j - k * D) else z) [0 ..< D * n] ! j"
      using j le kD assms(2) by (auto simp: assign_slice_def nth_append)
  qed
qed

lemma fold_blocks_upto:
  assumes "length row = D" "k \<le> n"
  shows "fold (\<lambda>i A. A[i := assign_slice (A ! i) (i * D) row]) [0 ..< k]
           (replicate n (replicate (D * n) z))
         = map (\<lambda>i. if i < k
                      then map (\<lambda>j. if i * D \<le> j \<and> j < (i + 1) * D then row ! (j - i * D) else z)
                             [0 ..< D * n]
                      else replicate (D * n) z) [0 ..< n]"
  using assms(2)
proof (induction k)
  case 0
  show ?case by (simp add: map_replicate_trivial)
next
  case (Suc k)
  then have k: "k < n" by simp
  let ?F = "\<lambda>k i. if i < k
                      then map (\<lambda>j. if i * D \<le> j \<and> j < (i + 1) * D then row ! (j - i * D) else z)
                             [0 ..< D * n]
                      else replicate (D * n) z"
  from Suc have IH: "fold (\<lambda>i A. A[i := assign_slice (A ! i) (i * D) row]) [0 ..< k]
           (replicate n (replicate (D * n) z)) = map (?F k) [0 ..< n]"
    by simp
  have "(map (?F k) [0 ..< n])[k := assign_slice (map (?F k) [0 ..< n] ! k) (k * D) row]
        = map (?F (Suc k)) [0 ..< n]"
  proof (rule nth_equalityI)
    show "length ((map (?F k) [0 ..< n])[k := assign_slice (map (?F k) [0 ..< n] ! k) (k * D) row])
          = length (map (?F (Suc k)) [0 ..< n])"
      by simp
  next
    fix i
    assume "i < length ((map (?F k) [0 ..< n])[k := assign_slice (map (?F k) [0 ..< n] ! k) (k * D) row])"
    then have i: "i < n" by simp
    show "(map (?F k) [0 ..< n])[k := assign_slice (map (?F k) [0 ..< n] ! k) (k * D) row] ! i
          = map (?F (Suc k)) [0 ..< n] ! i"
    proof (cases "i = k")
      case True
      with k show ?thesis
        by (simp add: assign_slice_zeros [OF k assms(1)])
    next
      case False
      with i show ?thesis by (simp add: less_Suc_eq)
    qed
  qed
  with IH show ?case by simp
qed

lemma fill_blocks_block_diagonal:
  "length row = D \<Longrightarrow> fill_blocks n D row = block_diagonal n D row"
  by (simp add: fill_blocks_def block_diagonal_def fold_blocks_upto)

lemma length_get_keys: "length (get_keys fs) = length fs"
  by (simp add: get_keys_def get_features_def)

lemma scipy_of_linear:
  assumes "is_linear c" "translatable ign c"
  shows "scipy_of_constraint d n ign c = Inr [expected_linear d n c]"
proof -
  have row: "fill_blocks n (length (inputs d))
        (lhs_row (get_keys (inputs d)) (dict_comp (\<lambda>i. (fs ! i, np_div (cs ! i) (l2_norm cs))) [0 ..< length fs]))
      = block_diagonal n (length (inputs d)) (scaled_row (get_keys (inputs d)) fs cs)"
    if "length fs \<le> length cs" for fs cs
  proof -
    from that have "lhs_row (get_keys (inputs d))
          (dict_comp (\<lambda>i. (fs ! i, np_div (cs ! i) (l2_norm cs))) [0 ..< length fs])
        = scaled_row (get_keys (inputs d)) fs cs"
      unfolding scaled_row_def by (rule lhs_row_scaled)
    moreover have "length (scaled_row (get_keys (inputs d)) fs cs) = length (inputs d)"
      by (simp add: scaled_row_def length_get_keys)
    ultimately show ?thesis
      by (simp add: fill_blocks_block_diagonal)
  qed
  from assms show ?thesis
    by (cases c) (simp_all add: lhs_dict_def then_do_def row del: np_div.simps)
qed

lemma scipy_of_translatable:
  "translatable ign c \<Longrightarrow> \<exists>new. scipy_of_constraint d n ign c = Inr new"
  by (cases c) (auto simp: lhs_dict_def then_do_def ConstraintWrapper_init_def)

lemma scipy_loop_translatable:
  "\<forall>c\<in>set cs. translatable ign c \<Longrightarrow>
     \<exists>out. scipy_loop d n ign cs acc = Inr out \<and> set acc \<subseteq> set out \<and>
           (\<forall>c\<in>set cs. is_linear c \<longrightarrow> expected_linear d n c \<in> set out)"
proof (induction cs arbitrary: acc)
  case Nil
  then show ?case by simp
next
  case (Cons c cs)
  from Cons.prems have tc: "translatable ign c" and rest: "\<forall>c\<in>set cs. translatable ign c"
    by simp_all
  from scipy_of_translatable [OF tc] obtain new where new: "scipy_of_constraint d n ign c = Inr new"
    by blast
  from Cons.IH [OF rest, of "acc @ new"] obtain out where
    out: "scipy_loop d n ign cs (acc @ new) = Inr out" "set (acc @ new) \<subseteq> set out"
      "\<forall>c\<in>set cs. is_linear c \<longrightarrow> expected_linear d n c \<in> set out"
    by blast
  have "expected_linear d n c \<in> set out" if "is_linear c"
  proof -
    from scipy_of_linear [OF that tc, of d n] new have "new = [expected_linear d n c]" by simp
    with out(2) show ?thesis by simp
  qed
  with out new show ?case
    by (simp add: then_do_def)
qed

text \<open>
  C1. On a domain whose constraints the transformer can translate,
  \<open>constraints_as_scipy_constraints\<close> returns, and for every linear equality or inequality
  of the domain the result holds a linear constraint whose matrix is the block-diagonal
  replication of the coefficient row (row \<open>i\<close> in the columns \<open>i * D\<close> to
  \<open>(i + 1) * D\<close>, \<open>D\<close> the number of inputs), every coefficient divided by the L2 norm
  of the coefficients; the upper bounds are \<open>rhs / norm\<close>, repeated once per experiment;
  the lower bounds are the same for an equality and minus infinity for an inequality.
\<close>

theorem C1_linear_constraints_block_diagonal:
  "\<forall>c\<in>set (constraints d). translatable ign c \<Longrightarrow>
     \<exists>out. constraints_as_scipy_constraints d n ign = Inr out \<and>
           (\<forall>c\<in>set (constraints d). is_linear c \<longrightarrow> expected_linear d n c \<in> set out)"
proof (cases "constraints d = []")
  case True
  then show ?thesis by (simp add: constraints_as_scipy_constraints_def)
next
  case False
  assume "\<forall>c\<in>set (constraints d). translatable ign c"
  from scipy_loop_translatable [OF this, of d n "[]"] False show ?thesis
    by (auto simp: constraints_as_scipy_constraints_def)
qed


lemma l2_norm_3_4: "l2_norm [3, 4] = 5"
proof -
  have "sqrt 25 = 5" by (rule real_sqrt_unique) simp_all
  then show ?thesis by (simp add: l2_norm_def)
qed

lemma l2_norm_2: "l2_norm [2] = 2"
proof -
  have "sqrt 4 = 2" by (rule real_sqrt_unique) simp_all
  then show ?thesis by (simp add: l2_norm_def)
qed

lemma keys_dom_linear: "get_keys (inputs dom_linear) = [''x1'', ''x2'']"
  by (simp add: dom_linear_def get_keys_def get_features_def less_eq_prod_def less_prod_def)

lemma block_diagonal_2_2:
  "block_diagonal 2 2 [a, b] = [[a, b, Fin 0, Fin 0], [Fin 0, Fin 0, a, b]]"
  by (simp add: block_diagonal_def upt_rec [of 0] upt_rec [of 1] upt_rec [of 2] upt_rec [of 3]
      numeral_2_eq_2 numeral_3_eq_3)

lemma expected_dom_linear:
  "expected_linear dom_linear 2 (LinearEqualityConstraint [''x1'', ''x2''] [3, 4] 10)
     = LinearConstraint [[Fin (3 / 5), Fin (4 / 5), Fin 0, Fin 0], [Fin 0, Fin 0, Fin (3 / 5), Fin (4 / 5)]]
         [Fin 2, Fin 2] [Fin 2, Fin 2]"
  "expected_linear dom_linear 2 (LinearInequalityConstraint [''x2''] [2] 1)
     = LinearConstraint [[Fin 0, Fin 1, Fin 0, Fin 0], [Fin 0, Fin 0, Fin 0, Fin 1]]
         [NegInf, NegInf] [Fin (1 / 2), Fin (1 / 2)]"
proof -
  have len: "length (inputs dom_linear) = 2" by (simp add: dom_linear_def)
  show "expected_linear dom_linear 2 (LinearEqualityConstraint [''x1'', ''x2''] [3, 4] 10)
     = LinearConstraint [[Fin (3 / 5), Fin (4 / 5), Fin 0, Fin 0], [Fin 0, Fin 0, Fin (3 / 5), Fin (4 / 5)]]
         [Fin 2, Fin 2] [Fin 2, Fin 2]"
    by (simp add: keys_dom_linear len scaled_row_def l2_norm_3_4 block_diagonal_2_2)
       (simp add: numeral_2_eq_2)
  show "expected_linear dom_linear 2 (LinearInequalityConstraint [''x2''] [2] 1)
     = LinearConstraint [[Fin 0, Fin 1, Fin 0, Fin 0], [Fin 0, Fin 0, Fin 0, Fin 1]]
         [NegInf, NegInf] [Fin (1 / 2), Fin (1 / 2)]"
    by (simp add: keys_dom_linear len scaled_row_def l2_norm_2 block_diagonal_2_2)
       (simp add: numeral_2_eq_2)
qed

theorem C1_linear_constraints_witness:
  "\<exists>out. constraints_as_scipy_constraints dom_linear 2 True = Inr out \<and>
     LinearConstraint [[Fin (3 / 5), Fin (4 / 5), Fin 0, Fin 0], [Fin 0, Fin 0, Fin (3 / 5), Fin (4 / 5)]]
       [Fin 2, Fin 2] [Fin 2, Fin 2] \<in> set out \<and>
     LinearConstraint [[Fin 0, Fin 1, Fin 0, Fin 0], [Fin 0, Fin 0, Fin 0, Fin 1]]
       [NegInf, NegInf] [Fin (1 / 2), Fin (1 / 2)] \<in> set out"
proof -
  have tr: "\<forall>c\<in>set (constraints dom_linear). translatable True c"
    by (simp add: dom_linear_def)
  from C1_linear_constraints_block_diagonal [OF tr, of 2] obtain out where
    out: "constraints_as_scipy_constraints dom_linear 2 True = Inr out"
    and lin: "\<forall>c\<in>set (constraints dom_linear). is_linear c \<longrightarrow> expected_linear dom_linear 2 c \<in> set out"
    by blast
  from lin have
    "expected_linear dom_linear 2 (LinearEqualityConstraint [''x1'', ''x2''] [3, 4] 10) \<in> set out"
    "expected_linear dom_linear 2 (LinearInequalityConstraint [''x2''] [2] 1) \<in> set out"
    by (simp_all add: dom_linear_def)
  with out show ?thesis
    by (simp only: expected_dom_linear) blast
qed

subsection \<open>G-optimality\<close>

text \<open>On a square model matrix the code computes the criterion of the specification.\<close>

lemma g_optimality_square:
  "nrows X = ncols X \<Longrightarrow> g_optimality linalg_inv X delta = g_optimality_spec linalg_inv X delta"
  by (simp add: g_optimality_def g_optimality_spec_def)

text \<open>With more experiments than terms (or fewer, both above one) the sum
  \<open>X\<^sup>T X + delta * eye(len(X))\<close> has operands of different shapes and raises.\<close>

lemma g_optimality_shape_mismatch:
  "nrows X \<noteq> ncols X \<Longrightarrow> nrows X \<noteq> 1 \<Longrightarrow> ncols X \<noteq> 1 \<Longrightarrow>
     g_optimality linalg_inv X delta = Inl ValueError"
  by (simp add: g_optimality_def then_do_def np_matmul_def np_transpose_def np_add_def
      np_scale_def np_eye_def broadcast_dim_def)

text \<open>
  C2 at a model matrix of three experiments and two terms: the identity built by the code
  is \<open>3 \<times> 3\<close>, \<open>X\<^sup>T X\<close> is \<open>2 \<times> 2\<close>, and \<open>g_optimality\<close> raises instead of
  returning the maximal diagonal entry of the hat matrix, whatever the inverse and delta.
\<close>

theorem C2_g_optimality_raises_on_nonsquare:
  "g_optimality linalg_inv X32 delta = Inl ValueError"
  by (rule g_optimality_shape_mismatch) (simp_all add: X32_def)

text \<open>With a single experiment the \<open>1 \<times> 1\<close> identity is broadcast: delta is added to
  every entry of \<open>X\<^sup>T X\<close>, not to its diagonal.\<close>

lemma g_optimality_single_row_sum: "then_do (np_matmul (np_transpose X12) X12) (\<lambda>XtX. np_add XtX (np_scale d (np_eye (nrows X12))))
   = Inr \<lparr> nrows = 2, ncols = 2, elems = [[1 + d, 2 + d], [2 + d, 4 + d]] \<rparr>"
  by (simp add: then_do_def np_matmul_def np_transpose_def np_add_def
      np_scale_def np_eye_def broadcast_dim_def X12_def upt_rec [of 0] upt_rec [of 1] numeral_2_eq_2)

subsection \<open>The precondition check of NChooseK constraints as bounds\<close>

lemma check_zero_in_bounds_cont:
  "list_all (continuous_key fs) names \<Longrightarrow>
     check_zero_in_bounds fs names =
       (if list_ex (\<lambda>name. \<not> zero_in_bounds fs name) names then Inl ValueError else Inr ())"
proof (induction names)
  case Nil
  then show ?case by simp
next
  case (Cons name names)
  from Cons.prems obtain k b where f: "get_by_key fs name = Inr (ContinuousInput k b)"
    by (auto simp: continuous_key_def split: sum.splits elim: is_continuous.elims)
  from Cons.prems have "list_all (continuous_key fs) names" by simp
  then have IH: "check_zero_in_bounds fs names =
       (if list_ex (\<lambda>name. \<not> zero_in_bounds fs name) names then Inl ValueError else Inr ())"
    by (rule Cons.IH)
  show ?case
    using f IH by (auto simp: zero_in_bounds_def)
qed

lemma check_all_bounds_cont:
  "list_all (\<lambda>c. list_all (continuous_key fs) (features c)) cs \<Longrightarrow>
     check_all_bounds fs cs =
       (if list_ex (\<lambda>c. list_ex (\<lambda>name. \<not> zero_in_bounds fs name) (features c)) cs
        then Inl ValueError else Inr ())"
proof (induction cs)
  case Nil
  then show ?case by simp
next
  case (Cons c cs)
  from Cons.prems have "list_all (continuous_key fs) (np_unique (features c))"
    by (simp add: np_unique_def list_all_iff)
  then have inner: "check_zero_in_bounds fs (np_unique (features c)) =
       (if list_ex (\<lambda>name. \<not> zero_in_bounds fs name) (np_unique (features c))
        then Inl ValueError else Inr ())"
    by (rule check_zero_in_bounds_cont)
  have same: "list_ex (\<lambda>name. \<not> zero_in_bounds fs name) (np_unique (features c)) =
              list_ex (\<lambda>name. \<not> zero_in_bounds fs name) (features c)"
    by (simp add: np_unique_def list_ex_iff)
  from Cons.prems have "list_all (\<lambda>c. list_all (continuous_key fs) (features c)) cs" by simp
  then have IH: "check_all_bounds fs cs =
       (if list_ex (\<lambda>c. list_ex (\<lambda>name. \<not> zero_in_bounds fs name) (features c)) cs
        then Inl ValueError else Inr ())"
    by (rule Cons.IH)
  show ?case
    using inner same IH by simp
qed

lemma check_overlap_shared:
  "check_overlap cs =
     (if list_ex (\<lambda>c. list_ex (\<lambda>c'. c \<noteq> c' \<and> set (features c) \<inter> set (features c') \<noteq> {}) cs) cs
      then Inl ValueError else Inr ())"
proof -
  have "list_ex (\<lambda>name. name \<in> set (features c')) (features c) \<longleftrightarrow>
        set (features c) \<inter> set (features c') \<noteq> {}" for c c' :: constraint
    by (auto simp: list_ex_iff)
  then show ?thesis
    by (simp add: check_overlap_def)
qed

text \<open>
  C3 (as the code has it). On a domain whose NChooseK constraints name continuous inputs,
  \<open>check_nchoosek_constraints_as_bounds\<close> raises a ValueError exactly when some feature of
  an NChooseK constraint has a lower bound above zero or an upper bound below zero (zero
  outside the closed interval of its bounds), or two NChooseK constraints that compare
  unequal share a feature; otherwise it returns without error.
\<close>

theorem C3_check_raises_iff:
  "nchoosek_features_continuous d \<Longrightarrow>
     check_nchoosek_constraints_as_bounds d =
       (if some_zero_outside d \<or> some_shared_feature d then Inl ValueError else Inr ())"
proof -
  assume wf: "nchoosek_features_continuous d"
  show ?thesis
  proof (cases "nchoosek_of d = []")
    case True
    then show ?thesis
      by (simp add: check_nchoosek_constraints_as_bounds_def some_zero_outside_def
          some_shared_feature_def nchoosek_of_def Let_def)
  next
    case False
    then have ne: "constraints d \<noteq> []"
      by (auto simp: nchoosek_of_def)
    from wf have "check_all_bounds (inputs d) (nchoosek_of d) =
       (if some_zero_outside d then Inl ValueError else Inr ())"
      unfolding nchoosek_features_continuous_def some_zero_outside_def
      by (rule check_all_bounds_cont)
    moreover have "check_overlap (nchoosek_of d) =
       (if some_shared_feature d then Inl ValueError else Inr ())"
      unfolding some_shared_feature_def by (rule check_overlap_shared)
    ultimately show ?thesis
      using False ne
      by (simp add: check_nchoosek_constraints_as_bounds_def Let_def nchoosek_of_def [symmetric])
  qed
qed

theorem C3_check_raises_witness:
  "nchoosek_features_continuous dom_positive \<and>
   check_nchoosek_constraints_as_bounds dom_positive = Inl ValueError"
proof -
  have wf: "nchoosek_features_continuous dom_positive"
    by (simp add: nchoosek_features_continuous_def nchoosek_of_def dom_positive_def
        continuous_key_def get_by_key_def)
  have "some_zero_outside dom_positive"
    by (simp add: some_zero_outside_def nchoosek_of_def dom_positive_def
        zero_in_bounds_def get_by_key_def)
  with wf C3_check_raises_iff [OF wf] show ?thesis
    by simp
qed

text \<open>The claim as written fails. Zero is not strictly inside the bounds \<open>(0, 1)\<close>, and
  the check passes; a constraint listed twice shares all its features with its copy, and
  the check passes.\<close>

theorem C3_strictly_inside_counterexample:
  "\<not> zero_strictly_in_bounds (inputs dom_zero_at_end) ''x1'' \<and>
   check_nchoosek_constraints_as_bounds dom_zero_at_end = Inr () \<and>
   check_nchoosek_constraints_as_bounds dom_twice = Inr ()"
  by (simp add: check_nchoosek_constraints_as_bounds_def dom_zero_at_end_def dom_twice_def
      zero_strictly_in_bounds_def np_unique_def get_by_key_def check_overlap_def)

subsection \<open>NChooseK constraints as bounds: round-robin pinning\<close>





















text \<open>Whole runs: four experiments over three combinations, used round-robin; a domain
  with a categorical input where the call returns and the rows pinned in the second
  experiment are not those of the combination chosen for it.\<close>

lemma bounds_dom_three:
  "nchoosek_constraints_as_bounds rev_shuffle dom_three 4 ()
     = Inr [(- 1, 1), (- 2, 2), (0, 0),
            (- 1, 1), (0, 0), (- 3, 3),
            (0, 0), (- 2, 2), (- 3, 3),
            (- 1, 1), (- 2, 2), (0, 0)]"
  by code_simp

lemma bounds_dom_mixed_misaligned:
  "nchoosek_constraints_as_bounds rot_shuffle dom_mixed 2 ()
     = Inr [(0, 1), (0, 0), (0, 0),
            (0, 1), (0, 0), (0, 0)]"
  by code_simp




subsection \<open>DiscreteInput\<close>

lemma length_card_distinct: "length xs = card (set xs) \<longleftrightarrow> distinct xs"
  using card_distinct distinct_card by force

text \<open>
  C5 (as the code has it). Construction from a non-empty list succeeds exactly when the
  values are pairwise distinct; it then stores the values sorted, which is the sorted list
  of the distinct elements. A list with a repeated value is rejected with a ValueError and
  is not de-duplicated.
\<close>

theorem C5_discrete_values_sorted_or_rejected:
  "values \<noteq> [] \<Longrightarrow>
     DiscreteInput_init k values =
       (if distinct values then Inr (DiscreteInput k (sorted_list_of_set (set values)))
        else Inl ValueError)"
proof (cases "distinct values")
  case True
  assume ne: "values \<noteq> []"
  from True have len: "length values = card (set values)"
    by (simp add: distinct_card)
  from True have "sort values = sorted_list_of_set (set values)"
    by (simp add: sorted_list_of_set_sort_remdups distinct_remdups_id)
  with True ne len show ?thesis
    by (simp add: DiscreteInput_init_def validate_values_unique_def)
next
  case False
  assume ne: "values \<noteq> []"
  from False have "length values \<noteq> card (set values)"
    by (simp add: length_card_distinct)
  with False ne show ?thesis
    by (simp add: DiscreteInput_init_def validate_values_unique_def)
qed

theorem C5_discrete_values_witness:
  "[3, 1, 2 :: real] \<noteq> [] \<and>
     DiscreteInput_init ''x'' [3, 1, 2] = Inr (DiscreteInput ''x'' [1, 2, 3])"
  using C5_discrete_values_sorted_or_rejected [of "[3, 1, 2]" "''x''"]
  by (simp add: sorted_list_of_set_sort_remdups)

text \<open>The claim as written fails: a list with a repeated value is not de-duplicated,
  the construction raises.\<close>

theorem C5_dedup_counterexample:
  "DiscreteInput_init ''x'' [1, 1] = Inl ValueError \<and>
   DiscreteInput_init ''x'' [1, 1] \<noteq> Inr (DiscreteInput ''x'' (sorted_list_of_set (set [1, 1])))"
  by (simp add: DiscreteInput_init_def validate_values_unique_def)

subsection \<open>Formula builder\<close>

lemma drop_last3_pad: "drop_last3 (s @ ''   '') = s"
  by (simp add: drop_last3_def)

text \<open>
  C6. A string that is none of the four keywords is handed to the formula parser as it
  is (three blanks are appended and cut off again), so \<open>get_formula_from_string\<close> raises
  exactly when the parser cannot parse the string, with the parser's exception; when the
  parser accepts the string a formula is returned.
\<close>

theorem C6_unknown_spec_fails_iff_unparsable:
  "s \<notin> set formula_keywords \<Longrightarrow>
     (get_formula_from_string Formula rhs_of (ModelString s) domn rhs_only = Inl e
        \<longleftrightarrow> Formula s = Inl e)"
  by (auto simp: get_formula_from_string_def formula_keywords_def then_do_def drop_last3_pad
      split: sum.splits)

theorem C6_unknown_spec_witness:
  "''('' \<notin> set formula_keywords \<and>
   get_formula_from_string toy_parser (\<lambda>_. None) (ModelString ''('') None True
     = Inl (ExternalError ''FormulaSyntaxError'')"
proof -
  have nk: "''('' \<notin> set formula_keywords" by (simp add: formula_keywords_def)
  have "toy_parser ''('' = Inl (ExternalError ''FormulaSyntaxError'')"
    by (simp add: toy_parser_def)
  with C6_unknown_spec_fails_iff_unparsable [OF nk, of toy_parser "\<lambda>_. None" None True
        "ExternalError ''FormulaSyntaxError''"] nk
  show ?thesis by simp
qed

subsection \<open>Polytope sampler: warnings\<close>

lemma set_fst_dict_set: "fst ` set (dict_set d k v) = insert k (fst ` set d)"
  by (induction d k v rule: dict_set.induct) auto

lemma set_fst_foldl_dict_set:
  "fst ` set (foldl (\<lambda>d x. dict_set d (fst (f x)) (snd (f x))) acc xs)
     = fst ` set acc \<union> (\<lambda>x. fst (f x)) ` set xs"
  by (induction xs arbitrary: acc) (auto simp: set_fst_dict_set)

lemma set_fst_dict_comp: "fst ` set (dict_comp f xs) = (\<lambda>x. fst (f x)) ` set xs"
  by (simp add: dict_comp_def set_fst_foldl_dict_set)

lemma pseudo_fixed_keys_subset:
  "pseudo_fixed cont_keys eqs acc = Inr r \<Longrightarrow>
     fst ` set (fst r) \<subseteq> fst ` set (fst acc) \<union> set cont_keys"
proof (induction cont_keys eqs acc rule: pseudo_fixed.induct)
  case (1 cont_keys acc)
  then show ?case by auto
next
  case (2 cont_keys eq eqs acc)
  show ?case
  proof (cases "length (fst eq) = 1")
    case True
    with "2.prems" have ok: "\<not> length cont_keys \<le> hd (fst eq)" "fst (snd eq) \<noteq> []"
      by (auto split: if_splits)
    with True "2.prems" have
      "pseudo_fixed cont_keys eqs
         (dict_set (fst acc) (cont_keys ! hd (fst eq)) (np_div (snd (snd eq)) (hd (fst (snd eq)))),
          snd acc) = Inr r"
      by simp
    with "2.IH"(1) [OF True ok] have
      "fst ` set (fst r) \<subseteq>
         fst ` set (dict_set (fst acc) (cont_keys ! hd (fst eq))
                (np_div (snd (snd eq)) (hd (fst (snd eq))))) \<union> set cont_keys"
      by simp
    then have sub: "fst ` set (fst r) \<subseteq>
         insert (cont_keys ! hd (fst eq)) (fst ` set (fst acc)) \<union> set cont_keys"
      by (simp only: set_fst_dict_set)
    have kin: "cont_keys ! hd (fst eq) \<in> set cont_keys"
      using ok(1) by simp
    show ?thesis
    proof
      fix x assume "x \<in> fst ` set (fst r)"
      with sub have "x \<in> insert (cont_keys ! hd (fst eq)) (fst ` set (fst acc)) \<union> set cont_keys"
        by (rule subsetD)
      with kin show "x \<in> fst ` set (fst acc) \<union> set cont_keys"
        by fast
    qed
  next
    case False
    with "2.prems" have "pseudo_fixed cont_keys eqs (fst acc, snd acc @ [eq]) = Inr r"
      by simp
    with "2.IH"(2) [OF False] show ?thesis
      by simp
  qed
qed

lemma fixed_features_keys:
  assumes "fixed_features_of d = Inr ff"
  shows "fst ` set (fst ff) \<subseteq> key ` set (get_features is_continuous (inputs d))"
proof -
  from assms obtain eqs where
    "pseudo_fixed (map key (get_features is_continuous (inputs d))) eqs (fixed_continuous d, []) = Inr ff"
    by (auto simp: fixed_features_of_def then_do_def split: sum.splits)
  from pseudo_fixed_keys_subset [OF this]
  have "fst ` set (fst ff) \<subseteq>
          fst ` set (fixed_continuous d) \<union> key ` set (get_features is_continuous (inputs d))"
    by simp
  moreover have "fst ` set (fixed_continuous d) \<subseteq> key ` set (get_features is_continuous (inputs d))"
    unfolding fixed_continuous_def set_fst_dict_comp by auto
  ultimately show ?thesis by blast
qed

lemma map_err_total:
  "\<forall>x\<in>set xs. \<exists>y. f x = Inr y \<Longrightarrow> \<exists>ys. map_err f xs = Inr ys"
proof (induction xs)
  case Nil
  then show ?case by simp
next
  case (Cons x xs)
  then obtain y where "f x = Inr y" by auto
  moreover from Cons obtain ys where "map_err f xs = Inr ys" by auto
  ultimately show ?case by (simp add: then_do_def)
qed

lemma fixed_indices_total:
  assumes "fst ` set ff \<subseteq> set cont_keys"
  shows "\<exists>fi. fixed_indices cont_keys ff = Inr fi"
proof -
  have "\<forall>kv\<in>set ff. \<exists>y. then_do (list_index cont_keys (fst kv)) (\<lambda>i. Inr (i, snd kv)) = Inr y"
    using assms by (auto simp: list_index_def then_do_def)
  then have "\<exists>ps. map_err (\<lambda>kv. then_do (list_index cont_keys (fst kv)) (\<lambda>i. Inr (i, snd kv))) ff = Inr ps"
    by (rule map_err_total)
  then show ?thesis
    by (auto simp: fixed_indices_def then_do_def)
qed


lemma sample_unconstrained:
  "constraints d = [] \<Longrightarrow> sample_from_polytope env d n = Inr (ws, t) \<Longrightarrow> ws = []"
  by (auto simp: sample_from_polytope_def then_do_def split: sum.splits)

lemma sample_stages:
  assumes "constraints d \<noteq> []" "sample_from_polytope env d n = Inr r"
  shows "\<exists>ff fi ineqs. fixed_features_of d = Inr ff
           \<and> fixed_indices (map key (get_features is_continuous (inputs d))) (fst ff) = Inr fi
           \<and> get_linear_constraints d is_linear_inequality = Inr ineqs"
  using assms
  by (auto simp: sample_from_polytope_def then_do_def Let_def split: sum.splits)

lemma sample_all_fixed:
  assumes "constraints d \<noteq> []" "fixed_features_of d = Inr ff"
    "fixed_indices (map key (get_features is_continuous (inputs d))) (fst ff) = Inr fi"
    "get_linear_constraints d is_linear_inequality = Inr ineqs"
    "free_continuous d (fst ff) = []"
  shows "sample_from_polytope env d n =
           Inr ([NothingToSample],
                complete_table env d n (fst ff)
                  (map (\<lambda>k. (k, replicate n (Num NaN))) (get_keys (inputs d))))"
  using assms by (simp add: sample_from_polytope_def then_do_def Let_def)

lemma sample_free:
  assumes "constraints d \<noteq> []" "fixed_features_of d = Inr ff"
    "fixed_indices (map key (get_features is_continuous (inputs d))) (fst ff) = Inr fi"
    "get_linear_constraints d is_linear_inequality = Inr ineqs"
    "free_continuous d (fst ff) \<noteq> []"
    "polytope_candidates env d n (fst ff) (snd ff) ineqs fi = Inr cands"
    "length cands = n" "\<forall>row\<in>set cands. length row = length (free_continuous d (fst ff))"
  shows "sample_from_polytope env d n =
           Inr (if \<not> distinct cands \<and> 1 < n then [NotUnique] else [],
                complete_table env d n (fst ff)
                  (map (\<lambda>j. (key (free_continuous d (fst ff) ! j), map (\<lambda>row. Num (Fin (row ! j))) cands))
                     [0 ..< length (free_continuous d (fst ff))]))"
proof -
  from \<open>length cands = n\<close> have "card (set cands) \<noteq> n \<longleftrightarrow> \<not> distinct cands"
    using card_distinct distinct_card by metis
  with assms show ?thesis
    by (simp add: sample_from_polytope_def then_do_def Let_def list_ex_iff)
qed

lemma sample_free_shape:
  assumes "constraints d \<noteq> []" "fixed_features_of d = Inr ff"
    "fixed_indices (map key (get_features is_continuous (inputs d))) (fst ff) = Inr fi"
    "get_linear_constraints d is_linear_inequality = Inr ineqs"
    "free_continuous d (fst ff) \<noteq> []"
    "sample_from_polytope env d n = Inr r"
  shows "\<exists>cands. polytope_candidates env d n (fst ff) (snd ff) ineqs fi = Inr cands
           \<and> length cands = n
           \<and> (\<forall>row\<in>set cands. length row = length (free_continuous d (fst ff)))"
  using assms
  by (simp add: sample_from_polytope_def then_do_def Let_def list_ex_iff
      split: sum.splits if_splits)


lemma set_get_features: "set (get_features p fs) = {f \<in> set fs. p f}"
  by (auto simp: get_features_def)

lemma free_continuous_empty_iff:
  "free_continuous d ff = [] \<longleftrightarrow> (\<forall>f\<in>set (inputs d). is_continuous f \<longrightarrow> key f \<in> fst ` set ff)"
  by (auto simp: free_continuous_def filter_empty_conv set_get_features)

lemma pseudo_fixed_keys_eq:
  "pseudo_fixed cont_keys eqs acc = Inr r \<Longrightarrow>
     fst ` set (fst r) = fst ` set (fst acc) \<union> set (pseudo_fixed_keys cont_keys eqs)"
proof (induction cont_keys eqs acc rule: pseudo_fixed.induct)
  case (1 cont_keys acc)
  then show ?case by (auto simp: pseudo_fixed_keys_def)
next
  case (2 cont_keys eq eqs acc)
  show ?case
  proof (cases "length (fst eq) = 1")
    case True
    with "2.prems" have ok: "\<not> length cont_keys \<le> hd (fst eq)" "fst (snd eq) \<noteq> []"
      by (auto split: if_splits)
    with True "2.prems" have
      "pseudo_fixed cont_keys eqs
         (dict_set (fst acc) (cont_keys ! hd (fst eq)) (np_div (snd (snd eq)) (hd (fst (snd eq)))),
          snd acc) = Inr r"
      by simp
    with "2.IH"(1) [OF True ok] have
      "fst ` set (fst r) =
         fst ` set (dict_set (fst acc) (cont_keys ! hd (fst eq))
                (np_div (snd (snd eq)) (hd (fst (snd eq))))) \<union> set (pseudo_fixed_keys cont_keys eqs)"
      by simp
    then have "fst ` set (fst r) =
         insert (cont_keys ! hd (fst eq)) (fst ` set (fst acc)) \<union> set (pseudo_fixed_keys cont_keys eqs)"
      by (simp only: set_fst_dict_set)
    moreover from True have
      "set (pseudo_fixed_keys cont_keys (eq # eqs))
         = insert (cont_keys ! hd (fst eq)) (set (pseudo_fixed_keys cont_keys eqs))"
      by (simp add: pseudo_fixed_keys_def)
    ultimately show ?thesis by simp
  next
    case False
    with "2.prems" have "pseudo_fixed cont_keys eqs (fst acc, snd acc @ [eq]) = Inr r"
      by simp
    with "2.IH"(2) [OF False] have
      "fst ` set (fst r) = fst ` set (fst acc) \<union> set (pseudo_fixed_keys cont_keys eqs)"
      by simp
    moreover from False have
      "pseudo_fixed_keys cont_keys (eq # eqs) = pseudo_fixed_keys cont_keys eqs"
      by (simp add: pseudo_fixed_keys_def)
    ultimately show ?thesis by simp
  qed
qed

lemma continuous_is_fixed: "is_continuous g \<Longrightarrow> is_fixed g \<longleftrightarrow> fst (bounds g) = snd (bounds g)"
  by (cases g) simp_all

lemma fixed_continuous_keys:
  "k \<in> fst ` set (fixed_continuous d) \<longleftrightarrow>
     list_ex (\<lambda>g. is_continuous g \<and> fst (bounds g) = snd (bounds g) \<and> key g = k) (inputs d)"
proof -
  have "fst ` set (fixed_continuous d)
        = key ` {g \<in> set (inputs d). is_continuous g \<and> is_fixed g}"
    unfolding fixed_continuous_def set_fst_dict_comp by (auto simp: set_get_features)
  then show ?thesis
    by (auto simp: list_ex_iff continuous_is_fixed)
qed

lemma fixed_features_keys_eq:
  assumes "fixed_features_of d = Inr ff" "get_linear_constraints d is_linear_equality = Inr eqs"
  shows "k \<in> fst ` set (fst ff) \<longleftrightarrow> key_fixed d eqs k"
proof -
  from assms have
    "pseudo_fixed (map key (get_features is_continuous (inputs d))) eqs (fixed_continuous d, []) = Inr ff"
    by (simp add: fixed_features_of_def then_do_def)
  from pseudo_fixed_keys_eq [OF this]
  have "fst ` set (fst ff) = fst ` set (fixed_continuous d)
          \<union> set (pseudo_fixed_keys (map key (get_features is_continuous (inputs d))) eqs)"
    by simp
  then have "k \<in> fst ` set (fst ff) \<longleftrightarrow>
        k \<in> fst ` set (fixed_continuous d)
        \<or> k \<in> set (pseudo_fixed_keys (map key (get_features is_continuous (inputs d))) eqs)"
    by blast
  then show ?thesis
    by (simp only: fixed_continuous_keys key_fixed_def)
qed

lemma nothing_free_iff_all_fixed:
  assumes "fixed_features_of d = Inr ff" "get_linear_constraints d is_linear_equality = Inr eqs"
  shows "free_continuous d (fst ff) = [] \<longleftrightarrow> all_continuous_fixed d eqs"
  by (simp add: free_continuous_empty_iff all_continuous_fixed_def list_all_iff
      fixed_features_keys_eq [OF assms])

lemma fixed_features_of_eqs:
  "fixed_features_of d = Inr ff \<Longrightarrow> \<exists>eqs. get_linear_constraints d is_linear_equality = Inr eqs"
  by (auto simp: fixed_features_of_def then_do_def split: sum.splits)


text \<open>
  C7 (as the code has it). When \<open>_sample_from_polytope\<close> returns, the warning
  "nothing to sample" was issued exactly when the domain has constraints and every
  continuous input is fixed, by coinciding bounds or by a linear equality with a single
  coefficient left, for every \<open>n\<close>; the warning "candidates are not unique" was issued
  exactly when the domain has constraints, some continuous input is not fixed, \<open>n > 1\<close>
  and the rows drawn by the hit-and-run sampler are not pairwise distinct. In both
  situations the call returns a table: in the first whenever the linear constraints of the
  domain can be put in index form, in the second whenever the sampler has drawn \<open>n\<close>
  rows of the width of the free inputs.
\<close>

theorem C7_sampler_warnings:
  "(sample_from_polytope env d n = Inr (ws, t) \<longrightarrow>
      (NothingToSample \<in> set ws \<longleftrightarrow>
         constraints d \<noteq> [] \<and>
         (\<exists>eqs. get_linear_constraints d is_linear_equality = Inr eqs \<and> all_continuous_fixed d eqs)) \<and>
      (NotUnique \<in> set ws \<longleftrightarrow>
         constraints d \<noteq> [] \<and> 1 < n \<and>
         (\<exists>eqs. get_linear_constraints d is_linear_equality = Inr eqs \<and> \<not> all_continuous_fixed d eqs) \<and>
         (\<exists>ff fi ineqs cands.
            fixed_features_of d = Inr ff \<and>
            fixed_indices (map key (get_features is_continuous (inputs d))) (fst ff) = Inr fi \<and>
            get_linear_constraints d is_linear_inequality = Inr ineqs \<and>
            polytope_candidates env d n (fst ff) (snd ff) ineqs fi = Inr cands \<and>
            \<not> distinct cands)))
   \<and> (constraints d \<noteq> [] \<and> fixed_features_of d = Inr ff1 \<and>
        get_linear_constraints d is_linear_equality = Inr eqs1 \<and> all_continuous_fixed d eqs1 \<and>
        get_linear_constraints d is_linear_inequality = Inr ineqs1 \<longrightarrow>
        (\<exists>t1. sample_from_polytope env d n = Inr ([NothingToSample], t1)))
   \<and> (constraints d \<noteq> [] \<and> 1 < n \<and> fixed_features_of d = Inr ff2 \<and>
        get_linear_constraints d is_linear_equality = Inr eqs2 \<and> \<not> all_continuous_fixed d eqs2 \<and>
        fixed_indices (map key (get_features is_continuous (inputs d))) (fst ff2) = Inr fi2 \<and>
        get_linear_constraints d is_linear_inequality = Inr ineqs2 \<and>
        polytope_candidates env d n (fst ff2) (snd ff2) ineqs2 fi2 = Inr cands2 \<and>
        length cands2 = n \<and>
        (\<forall>row\<in>set cands2. length row = length (free_continuous d (fst ff2))) \<and>
        \<not> distinct cands2 \<longrightarrow>
        (\<exists>t2. sample_from_polytope env d n = Inr ([NotUnique], t2)))"
proof (intro conjI impI)
  assume r: "sample_from_polytope env d n = Inr (ws, t)"
  show "NothingToSample \<in> set ws \<longleftrightarrow>
         constraints d \<noteq> [] \<and>
         (\<exists>eqs. get_linear_constraints d is_linear_equality = Inr eqs \<and> all_continuous_fixed d eqs)"
  proof (cases "constraints d = []")
    case True
    from True r have "ws = []" by (rule sample_unconstrained)
    with True show ?thesis by simp
  next
    case False
    from sample_stages [OF False r] obtain ff fi ineqs where
      st: "fixed_features_of d = Inr ff"
      "fixed_indices (map key (get_features is_continuous (inputs d))) (fst ff) = Inr fi"
      "get_linear_constraints d is_linear_inequality = Inr ineqs"
      by blast
    from fixed_features_of_eqs [OF st(1)] obtain eqs where
      eqs: "get_linear_constraints d is_linear_equality = Inr eqs" by blast
    note iff = nothing_free_iff_all_fixed [OF st(1) eqs]
    show ?thesis
    proof (cases "free_continuous d (fst ff) = []")
      case True
      from sample_all_fixed [OF False st True, of env n] r have "ws = [NothingToSample]"
        by simp
      with False eqs iff True show ?thesis by simp
    next
      case free: False
      from sample_free_shape [OF False st free r] obtain cands where
        c: "polytope_candidates env d n (fst ff) (snd ff) ineqs fi = Inr cands"
        "length cands = n"
        "\<forall>row\<in>set cands. length row = length (free_continuous d (fst ff))"
        by blast
      from sample_free [OF False st free c] r
      have "ws = (if \<not> distinct cands \<and> 1 < n then [NotUnique] else [])"
        by simp
      then have "NothingToSample \<notin> set ws" by simp
      with eqs iff free show ?thesis by simp
    qed
  qed
  show "NotUnique \<in> set ws \<longleftrightarrow>
         constraints d \<noteq> [] \<and> 1 < n \<and>
         (\<exists>eqs. get_linear_constraints d is_linear_equality = Inr eqs \<and> \<not> all_continuous_fixed d eqs) \<and>
         (\<exists>ff fi ineqs cands.
            fixed_features_of d = Inr ff \<and>
            fixed_indices (map key (get_features is_continuous (inputs d))) (fst ff) = Inr fi \<and>
            get_linear_constraints d is_linear_inequality = Inr ineqs \<and>
            polytope_candidates env d n (fst ff) (snd ff) ineqs fi = Inr cands \<and>
            \<not> distinct cands)"
  proof (cases "constraints d = []")
    case True
    from True r have "ws = []" by (rule sample_unconstrained)
    with True show ?thesis by simp
  next
    case False
    from sample_stages [OF False r] obtain ff fi ineqs where
      st: "fixed_features_of d = Inr ff"
      "fixed_indices (map key (get_features is_continuous (inputs d))) (fst ff) = Inr fi"
      "get_linear_constraints d is_linear_inequality = Inr ineqs"
      by blast
    from fixed_features_of_eqs [OF st(1)] obtain eqs where
      eqs: "get_linear_constraints d is_linear_equality = Inr eqs" by blast
    note iff = nothing_free_iff_all_fixed [OF st(1) eqs]
    show ?thesis
    proof (cases "free_continuous d (fst ff) = []")
      case True
      from sample_all_fixed [OF False st True, of env n] r have "ws = [NothingToSample]"
        by simp
      with eqs iff True show ?thesis by simp
    next
      case free: False
      from sample_free_shape [OF False st free r] obtain cands where
        c: "polytope_candidates env d n (fst ff) (snd ff) ineqs fi = Inr cands"
        "length cands = n"
        "\<forall>row\<in>set cands. length row = length (free_continuous d (fst ff))"
        by blast
      from sample_free [OF False st free c] r
      have ws: "ws = (if \<not> distinct cands \<and> 1 < n then [NotUnique] else [])"
        by simp
      from eqs iff free have nf: "\<not> all_continuous_fixed d eqs" by simp
      show ?thesis
      proof (cases "\<not> distinct cands \<and> 1 < n")
        case True
        with ws have "NotUnique \<in> set ws" by simp
        moreover from True False eqs nf st c(1) have
          "constraints d \<noteq> [] \<and> 1 < n \<and>
           (\<exists>eqs. get_linear_constraints d is_linear_equality = Inr eqs \<and> \<not> all_continuous_fixed d eqs) \<and>
           (\<exists>ff fi ineqs cands.
              fixed_features_of d = Inr ff \<and>
              fixed_indices (map key (get_features is_continuous (inputs d))) (fst ff) = Inr fi \<and>
              get_linear_constraints d is_linear_inequality = Inr ineqs \<and>
              polytope_candidates env d n (fst ff) (snd ff) ineqs fi = Inr cands \<and>
              \<not> distinct cands)"
          by blast
        ultimately show ?thesis by simp
      next
        case nd: False
        with ws have "NotUnique \<notin> set ws" by simp
        moreover from nd st c(1) have
          "\<not> (1 < n \<and>
           (\<exists>ff fi ineqs cands.
              fixed_features_of d = Inr ff \<and>
              fixed_indices (map key (get_features is_continuous (inputs d))) (fst ff) = Inr fi \<and>
              get_linear_constraints d is_linear_inequality = Inr ineqs \<and>
              polytope_candidates env d n (fst ff) (snd ff) ineqs fi = Inr cands \<and>
              \<not> distinct cands))"
          by auto
        ultimately show ?thesis by blast
      qed
    qed
  qed
next
  assume a: "constraints d \<noteq> [] \<and> fixed_features_of d = Inr ff1 \<and>
        get_linear_constraints d is_linear_equality = Inr eqs1 \<and> all_continuous_fixed d eqs1 \<and>
        get_linear_constraints d is_linear_inequality = Inr ineqs1"
  then have ff: "fixed_features_of d = Inr ff1"
    and eqs: "get_linear_constraints d is_linear_equality = Inr eqs1" by simp_all
  from a nothing_free_iff_all_fixed [OF ff eqs] have free: "free_continuous d (fst ff1) = []"
    by simp
  from fixed_features_keys [OF ff] obtain fi where
    "fixed_indices (map key (get_features is_continuous (inputs d))) (fst ff1) = Inr fi"
    using fixed_indices_total [of "fst ff1" "map key (get_features is_continuous (inputs d))"]
    by auto
  with a free sample_all_fixed [of d ff1 fi ineqs1 env n]
  show "\<exists>t1. sample_from_polytope env d n = Inr ([NothingToSample], t1)"
    by simp
next
  assume a: "constraints d \<noteq> [] \<and> 1 < n \<and> fixed_features_of d = Inr ff2 \<and>
        get_linear_constraints d is_linear_equality = Inr eqs2 \<and> \<not> all_continuous_fixed d eqs2 \<and>
        fixed_indices (map key (get_features is_continuous (inputs d))) (fst ff2) = Inr fi2 \<and>
        get_linear_constraints d is_linear_inequality = Inr ineqs2 \<and>
        polytope_candidates env d n (fst ff2) (snd ff2) ineqs2 fi2 = Inr cands2 \<and>
        length cands2 = n \<and>
        (\<forall>row\<in>set cands2. length row = length (free_continuous d (fst ff2))) \<and>
        \<not> distinct cands2"
  then have ff: "fixed_features_of d = Inr ff2"
    and eqs: "get_linear_constraints d is_linear_equality = Inr eqs2" by simp_all
  from a nothing_free_iff_all_fixed [OF ff eqs] have free: "free_continuous d (fst ff2) \<noteq> []"
    by simp
  from a have
    "constraints d \<noteq> []"
    "fixed_indices (map key (get_features is_continuous (inputs d))) (fst ff2) = Inr fi2"
    "get_linear_constraints d is_linear_inequality = Inr ineqs2"
    "polytope_candidates env d n (fst ff2) (snd ff2) ineqs2 fi2 = Inr cands2"
    "length cands2 = n"
    "\<forall>row\<in>set cands2. length row = length (free_continuous d (fst ff2))"
    by simp_all
  from sample_free [OF this(1) ff this(2,3) free this(4,5,6)] a
  show "\<exists>t2. sample_from_polytope env d n = Inr ([NotUnique], t2)"
    by simp
qed


text \<open>The stages of the sampler on the examples, and whole runs: free inputs with
  repeated rows, free inputs with distinct rows, an input pinned by an equality.\<close>

lemma dom_all_fixed_stages:
  "constraints dom_all_fixed \<noteq> []"
  "fixed_features_of dom_all_fixed = Inr ([(''x1'', Fin 1), (''x2'', Fin 2)], [])"
  "get_linear_constraints dom_all_fixed is_linear_equality = Inr []"
  "all_continuous_fixed dom_all_fixed []"
  "get_linear_constraints dom_all_fixed is_linear_inequality = Inr [([], [], - 2)]"
  by code_simp+

lemma dom_free_stages:
  "constraints dom_free \<noteq> []"
  "fixed_features_of dom_free = Inr ([], [])"
  "get_linear_constraints dom_free is_linear_equality = Inr []"
  "\<not> all_continuous_fixed dom_free []"
  "fixed_indices (map key (get_features is_continuous (inputs dom_free))) [] = Inr []"
  "get_linear_constraints dom_free is_linear_inequality = Inr [([0, 1], [1, 1], - 1)]"
  "polytope_candidates stub_env dom_free 2 [] [] [([0, 1], [1, 1], - 1)] [] = Inr [[0, 0], [0, 0]]"
  "length (free_continuous dom_free []) = 2"
  by code_simp+

lemma sample_dom_free_not_unique:
  "sample_from_polytope stub_env dom_free 2
     = Inr ([NotUnique], [(''x1'', [Num (Fin 0), Num (Fin 0)]), (''x2'', [Num (Fin 0), Num (Fin 0)])])"
  by code_simp

lemma sample_dom_free_distinct:
  "sample_from_polytope stub_env_distinct dom_free 2
     = Inr ([], [(''x1'', [Num (Fin 0), Num (Fin 1)]), (''x2'', [Num (Fin 0), Num (Fin 1)])])"
  by code_simp

lemma sample_dom_pseudo_fixed:
  "sample_from_polytope stub_env dom_pseudo_fixed 3
     = Inr ([NothingToSample],
            [(''x1'', [Num (Fin (- 1)), Num (Fin (- 1)), Num (Fin (- 1))]),
             (''x2'', [Num (Fin 2), Num (Fin 2), Num (Fin 2)])])"
  by code_simp

theorem C7_sampler_warnings_witness:
  "(\<exists>t. sample_from_polytope stub_env dom_all_fixed 2 = Inr ([NothingToSample], t)) \<and>
   (\<exists>t. sample_from_polytope stub_env dom_free 2 = Inr ([NotUnique], t))"
proof
  have "constraints dom_all_fixed \<noteq> [] \<and>
        fixed_features_of dom_all_fixed = Inr ([(''x1'', Fin 1), (''x2'', Fin 2)], []) \<and>
        get_linear_constraints dom_all_fixed is_linear_equality = Inr [] \<and>
        all_continuous_fixed dom_all_fixed [] \<and>
        get_linear_constraints dom_all_fixed is_linear_inequality = Inr [([], [], - 2)]"
    using dom_all_fixed_stages by simp
  with C7_sampler_warnings [where env = stub_env and d = dom_all_fixed and n = 2
      and ?ff1.0 = "([(''x1'', Fin 1), (''x2'', Fin 2)], [])" and ?eqs1.0 = "[]"
      and ?ineqs1.0 = "[([], [], - 2)]", THEN conjunct2, THEN conjunct1]
  show "\<exists>t. sample_from_polytope stub_env dom_all_fixed 2 = Inr ([NothingToSample], t)"
    by blast
next
  have "constraints dom_free \<noteq> [] \<and> 1 < (2::nat) \<and>
        fixed_features_of dom_free = Inr ([], []) \<and>
        get_linear_constraints dom_free is_linear_equality = Inr [] \<and>
        \<not> all_continuous_fixed dom_free [] \<and>
        fixed_indices (map key (get_features is_continuous (inputs dom_free))) (fst ([], [])) = Inr [] \<and>
        get_linear_constraints dom_free is_linear_inequality = Inr [([0, 1], [1, 1], - 1)] \<and>
        polytope_candidates stub_env dom_free 2 (fst ([], [])) (snd ([], [])) [([0, 1], [1, 1], - 1)] []
          = Inr [[0, 0], [0, 0]] \<and>
        length [[0, 0], [0, 0 :: real]] = 2 \<and>
        (\<forall>row\<in>set [[0, 0], [0, 0 :: real]]. length row = length (free_continuous dom_free (fst ([], [])))) \<and>
        \<not> distinct [[0, 0], [0, 0 :: real]]"
    using dom_free_stages by simp
  with C7_sampler_warnings [where env = stub_env and d = dom_free and n = 2
      and ?ff2.0 = "([], [])" and ?eqs2.0 = "[]" and ?fi2.0 = "[]"
      and ?ineqs2.0 = "[([0, 1], [1, 1], - 1)]" and ?cands2.0 = "[[0, 0], [0, 0]]",
      THEN conjunct2, THEN conjunct2]
  show "\<exists>t. sample_from_polytope stub_env dom_free 2 = Inr ([NotUnique], t)"
    by blast
qed

text \<open>The claim as written fails: with every continuous input fixed and \<open>n = 2\<close> the
  warning is issued (and the table returned); with \<open>n = 1\<close>, the input fixed and no
  constraint in the domain, no warning is issued.\<close>

theorem C7_warns_for_n_above_one_counterexample:
  "sample_from_polytope stub_env dom_all_fixed 2
     = Inr ([NothingToSample],
            [(''x1'', [Num (Fin 1), Num (Fin 1)]), (''x2'', [Num (Fin 2), Num (Fin 2)])]) \<and>
   sample_from_polytope stub_env dom_fixed_unconstrained 1
     = Inr ([], [(''x1'', [Num (Fin 1)])])"
  by code_simp

subsection \<open>PolytopeSampler._ask: the original domain is not mutated\<close>

lemma store_preserved_iff:
  "store_preserved s s' \<longleftrightarrow> length s \<le> length s' \<and> (\<forall>b<length s. s' ! b = s ! b)"
proof
  assume "store_preserved s s'"
  then have t: "take (length s) s' = s" by (simp add: store_preserved_def)
  from arg_cong [OF t, of length] have len: "length s \<le> length s'"
    by simp
  have "s' ! b = s ! b" if "b < length s" for b
  proof -
    from that have "take (length s) s' ! b = s' ! b" by simp
    with t show ?thesis by simp
  qed
  with len show "length s \<le> length s' \<and> (\<forall>b<length s. s' ! b = s ! b)" by simp
next
  assume "length s \<le> length s' \<and> (\<forall>b<length s. s' ! b = s ! b)"
  then show "store_preserved s s'"
    by (simp add: store_preserved_def list_eq_iff_nth_eq)
qed

lemma store_preserved_refl: "store_preserved s s"
  by (simp add: store_preserved_def)

lemma store_preserved_trans:
  "store_preserved s s' \<Longrightarrow> store_preserved s' s'' \<Longrightarrow> store_preserved s s''"
  by (auto simp: store_preserved_iff)

lemma store_preserved_append: "store_preserved s (s @ ext)"
  by (simp add: store_preserved_def)

lemma map_err_Inr_D:
  "map_err f xs = Inr ys \<Longrightarrow> list_all2 (\<lambda>x y. f x = Inr y) xs ys"
proof (induction xs arbitrary: ys)
  case Nil
  then show ?case by simp
next
  case (Cons x xs)
  from Cons.prems obtain y zs where
    y: "f x = Inr y" and zs: "map_err f xs = Inr zs" and ys: "ys = y # zs"
    by (auto simp: then_do_def split: sum.splits)
  from zs have "list_all2 (\<lambda>x y. f x = Inr y) xs zs" by (rule Cons.IH)
  with y ys show ?case by simp
qed

lemma map_err_Inr_I:
  "list_all2 (\<lambda>x y. f x = Inr y) xs ys \<Longrightarrow> map_err f xs = Inr ys"
  by (induction xs ys rule: list_all2_induct) (simp_all add: then_do_def)

lemma read_feature_preserved:
  "read_feature s a = Inr f \<Longrightarrow> store_preserved s s' \<Longrightarrow> read_feature s' a = Inr f"
  by (auto simp: read_feature_def store_preserved_iff split: if_splits)

lemma read_domain_preserved:
  assumes "read_domain s a = Inr d" "store_preserved s s'"
  shows "read_domain s' a = Inr d"
proof -
  from assms(1) obtain ob fs where
    ob: "read_domain_obj s a = Inr ob" and fs: "map_err (read_feature s) (fst ob) = Inr fs"
    and d: "d = \<lparr> inputs = fs, constraints = snd ob \<rparr>"
    by (auto simp: read_domain_def then_do_def split: sum.splits)
  from ob assms(2) have ob': "read_domain_obj s' a = Inr ob"
    by (auto simp: read_domain_obj_def store_preserved_iff split: if_splits)
  from fs have "list_all2 (\<lambda>x y. read_feature s x = Inr y) (fst ob) fs"
    by (rule map_err_Inr_D)
  then have "list_all2 (\<lambda>x y. read_feature s' x = Inr y) (fst ob) fs"
    by (rule list_all2_mono) (simp add: read_feature_preserved [OF _ assms(2)])
  then have "map_err (read_feature s') (fst ob) = Inr fs"
    by (rule map_err_Inr_I)
  with ob' d show ?thesis
    by (simp add: read_domain_def then_do_def)
qed

lemma copy_features_fresh:
  "copy_features s memo as = Inr r \<Longrightarrow> L \<le> length s \<Longrightarrow> \<forall>p\<in>set memo. L \<le> snd p \<Longrightarrow>
     store_preserved s (snd r) \<and> (\<forall>b\<in>set (fst r). L \<le> b)"
proof (induction s memo as arbitrary: r rule: copy_features.induct)
  case (1 s memo)
  then show ?case by (auto simp: store_preserved_refl)
next
  case (2 s memo a as)
  show ?case
  proof (cases "map_of memo a")
    case (Some a')
    with "2.prems"(1) obtain r' where
      r': "copy_features s memo as = Inr r'" and r: "r = (a' # fst r', snd r')"
      by (auto simp: then_do_def split: sum.splits)
    from "2.IH"(2) [OF Some r' "2.prems"(2,3)]
    have "store_preserved s (snd r') \<and> (\<forall>b\<in>set (fst r'). L \<le> b)" .
    moreover from Some have "(a, a') \<in> set memo" by (rule map_of_SomeD)
    with "2.prems"(3) have "L \<le> a'" by force
    ultimately show ?thesis using r by simp
  next
    case None
    with "2.prems"(1) obtain f r' where
      f: "read_feature s a = Inr f" and
      r': "copy_features (snd (alloc s (FeatureObj f))) ((a, fst (alloc s (FeatureObj f))) # memo) as = Inr r'"
      and r: "r = (fst (alloc s (FeatureObj f)) # fst r', snd r')"
      by (auto simp: then_do_def split: sum.splits)
    have len: "L \<le> length (snd (alloc s (FeatureObj f)))"
      using "2.prems"(2) by (simp add: alloc_def)
    have memo: "\<forall>p\<in>set ((a, fst (alloc s (FeatureObj f))) # memo). L \<le> snd p"
      using "2.prems"(2,3) by (simp add: alloc_def)
    from "2.IH"(1) [OF None r' len memo]
    have IH: "store_preserved (snd (alloc s (FeatureObj f))) (snd r') \<and> (\<forall>b\<in>set (fst r'). L \<le> b)" .
    have "store_preserved s (snd (alloc s (FeatureObj f)))"
      by (simp add: alloc_def store_preserved_append)
    with IH have "store_preserved s (snd r')"
      using store_preserved_trans by blast
    with IH r "2.prems"(2) show ?thesis
      by (simp add: alloc_def)
  qed
qed


lemma deepcopy_domain_fresh:
  assumes "deepcopy_domain s a = Inr r"
  shows "store_preserved s (snd r) \<and> length s \<le> fst r \<and> fst r < length (snd r) \<and>
         (\<exists>ins cs. read_domain_obj (snd r) (fst r) = Inr (ins, cs) \<and> (\<forall>b\<in>set ins. length s \<le> b))"
proof -
  from assms obtain ob c where
    ob: "read_domain_obj s a = Inr ob" and c: "copy_features s [] (fst ob) = Inr c"
    and r: "r = alloc (snd c) (DomainObj (fst c) (snd ob))"
    by (auto simp: deepcopy_domain_def then_do_def split: sum.splits)
  from copy_features_fresh [OF c, of "length s"]
  have pc: "store_preserved s (snd c)" and fresh: "\<forall>b\<in>set (fst c). length s \<le> b"
    by simp_all
  from pc have len: "length s \<le> length (snd c)"
    by (simp add: store_preserved_iff)
  have "store_preserved (snd c) (snd r)"
    using r by (simp add: alloc_def store_preserved_append)
  with pc have "store_preserved s (snd r)"
    by (rule store_preserved_trans)
  moreover have "read_domain_obj (snd r) (fst r) = Inr (fst c, snd ob)"
    using r by (simp add: alloc_def read_domain_obj_def)
  ultimately show ?thesis
    using r len fresh by (simp add: alloc_def)
qed

lemma addr_by_key_mem:
  assumes "addr_by_key s ins k = Inr a"
  shows "a \<in> set ins"
proof -
  from assms obtain kas where
    kas: "map_err (\<lambda>a. then_do (read_feature s a) (\<lambda>f. Inr (key f, a))) ins = Inr kas"
    and m: "map_of (rev kas) k = Some a"
    by (auto simp: addr_by_key_def then_do_def split: sum.splits option.splits)
  from kas have "list_all2 (\<lambda>x y. then_do (read_feature s x) (\<lambda>f. Inr (key f, x)) = Inr y) ins kas"
    by (rule map_err_Inr_D)
  then have "list_all2 (\<lambda>x y. snd y = x) ins kas"
    by (rule list_all2_mono) (auto simp: then_do_def split: sum.splits)
  then have "map snd kas = ins"
    by (induction ins kas rule: list_all2_induct) simp_all
  moreover from m have "(k, a) \<in> set kas"
    using map_of_SomeD by fastforce
  ultimately show ?thesis by force
qed

lemma pin_unused_frame:
  "pin_unused s ins ks = (r, s') \<Longrightarrow> \<forall>b\<in>set ins. L \<le> b \<Longrightarrow>
     length s' = length s \<and> (\<forall>b<L. s' ! b = s ! b)"
proof (induction s ins ks arbitrary: r s' rule: pin_unused.induct)
  case (1 s ins)
  then show ?case by simp
next
  case (2 s ins k ks)
  show ?case
  proof (cases "addr_by_key s ins k")
    case (Inl e)
    with "2.prems" show ?thesis by simp
  next
    case (Inr a)
    then have "a \<in> set ins" by (rule addr_by_key_mem)
    with "2.prems"(2) have La: "L \<le> a" by simp
    show ?thesis
    proof (cases "read_feature s a")
      case (Inl e)
      with Inr "2.prems" show ?thesis by simp
    next
      case rf: (Inr feat)
      show ?thesis
      proof (cases "is_continuous feat")
        case False
        with Inr rf "2.prems" show ?thesis by simp
      next
        case True
        with Inr rf "2.prems"(1) have
          "pin_unused (s[a := FeatureObj (ContinuousInput (key feat) (0, 0))]) ins ks = (r, s')"
          by simp
        from "2.IH" [OF Inr rf _ this "2.prems"(2)] True
        have "length s' = length (s[a := FeatureObj (ContinuousInput (key feat) (0, 0))]) \<and>
              (\<forall>b<L. s' ! b = (s[a := FeatureObj (ContinuousInput (key feat) (0, 0))]) ! b)"
          by simp
        with La show ?thesis by simp
      qed
    qed
  qed
qed

lemma sample_combination_preserves:
  assumes "sample_combination env s a u num = (r, s')"
  shows "store_preserved s s'"
proof (cases "deepcopy_domain s a")
  case (Inl e)
  with assms show ?thesis
    by (simp add: sample_combination_def store_preserved_refl)
next
  case (Inr c)
  from deepcopy_domain_fresh [OF Inr] obtain ins cs where
    pc: "store_preserved s (snd c)" and lo: "length s \<le> fst c"
    and ob: "read_domain_obj (snd c) (fst c) = Inr (ins, cs)"
    and fresh: "\<forall>b\<in>set ins. length s \<le> b"
    by blast
  let ?s2 = "(snd c)[fst c := DomainObj ins (filter (\<lambda>c. \<not> is_nchoosek c) cs)]"
  obtain pr s3 where pin: "pin_unused ?s2 ins u = (pr, s3)"
    by (cases "pin_unused ?s2 ins u")
  from pin_unused_frame [OF pin fresh]
  have f3: "length s3 = length ?s2" "\<forall>b<length s. s3 ! b = ?s2 ! b"
    by simp_all
  from pc have pcs: "length s \<le> length (snd c)" "\<forall>b<length s. snd c ! b = s ! b"
    by (simp_all add: store_preserved_iff)
  have "store_preserved s s3"
    unfolding store_preserved_iff using f3 pcs lo by simp
  moreover from assms Inr ob pin have "s' = s3"
    by (cases pr) (simp_all add: sample_combination_def)
  ultimately show ?thesis by simp
qed

lemma sample_combinations_preserves:
  "sample_combinations env s a us num acc = (r, s') \<Longrightarrow> store_preserved s s'"
proof (induction us arbitrary: s acc)
  case Nil
  then show ?case by (simp add: store_preserved_refl)
next
  case (Cons u us)
  obtain r1 s1 where one: "sample_combination env s a u num = (r1, s1)"
    by (cases "sample_combination env s a u num")
  then have p1: "store_preserved s s1" by (rule sample_combination_preserves)
  show ?case
  proof (cases r1)
    case (Inl e)
    with one Cons.prems p1 show ?thesis by simp
  next
    case (Inr x)
    with one Cons.prems have "sample_combinations env s1 a us num (acc @ [x]) = (r, s')"
      by simp
    then have "store_preserved s1 s'" by (rule Cons.IH)
    with p1 show ?thesis by (rule store_preserved_trans)
  qed
qed

lemma ask_preserves:
  assumes "ask env aenv s a n = (r, s')"
  shows "store_preserved s s'"
proof (cases "read_domain s a")
  case (Inl e)
  with assms show ?thesis by (simp add: ask_def store_preserved_refl)
next
  case (Inr d)
  show ?thesis
  proof (cases "0 < length (filter is_nchoosek (constraints d))")
    case False
    with Inr assms show ?thesis by (simp add: ask_def store_preserved_refl)
  next
    case True
    let ?unused = "nchoosek_unused aenv d"
    show ?thesis
    proof (cases "n \<le> length ?unused")
      case le: True
      show ?thesis
      proof (cases "map_err (\<lambda>i. if i < length ?unused then Inr (?unused ! i) else Inl IndexError)
                       (choice aenv (length ?unused) n)")
        case (Inl e)
        with Inr True le assms show ?thesis
          by (simp add: ask_def Let_def store_preserved_refl)
      next
        case sc: (Inr sampled)
        obtain rs s1 where loop: "sample_combinations env s a sampled 1 [] = (rs, s1)"
          by (cases "sample_combinations env s a sampled 1 []")
        then have "store_preserved s s1" by (rule sample_combinations_preserves)
        moreover from Inr True le sc loop assms have "s' = s1"
          by (cases rs) (simp_all add: ask_def Let_def)
        ultimately show ?thesis by simp
      qed
    next
      case gt: False
      show ?thesis
      proof (cases "length ?unused = 0")
        case True
        with Inr \<open>0 < length (filter is_nchoosek (constraints d))\<close> gt assms show ?thesis
          by (simp add: ask_def Let_def store_preserved_refl)
      next
        case False
        obtain rs s1 where
          loop: "sample_combinations env s a ?unused (ceil_div n (length ?unused)) [] = (rs, s1)"
          by (cases "sample_combinations env s a ?unused (ceil_div n (length ?unused)) []")
        then have "store_preserved s s1" by (rule sample_combinations_preserves)
        moreover from Inr \<open>0 < length (filter is_nchoosek (constraints d))\<close> gt False loop assms
        have "s' = s1"
          by (cases rs) (simp_all add: ask_def Let_def)
        ultimately show ?thesis by simp
      qed
    qed
  qed
qed

text \<open>
  C8. After \<open>_ask\<close>, whether it returned a table or raised, every object that was in
  the store before the call is unchanged, and the domain of the sampler reads as before:
  the same constraints (the NChooseK constraints among them) and the same input features
  with their bounds. The assignments of \<open>_ask\<close> (the constraints of the copy, the bounds
  \<open>(0, 0)\<close> of the unused features) reach only the objects made by \<open>deepcopy\<close>.
\<close>

theorem C8_ask_never_mutates_original_domain:
  "ask env aenv s a n = (r, s') \<Longrightarrow> read_domain s a = Inr d \<Longrightarrow>
     store_preserved s s' \<and> read_domain s' a = Inr d"
proof -
  assume run: "ask env aenv s a n = (r, s')" and d: "read_domain s a = Inr d"
  from run have p: "store_preserved s s'" by (rule ask_preserves)
  from d p have "read_domain s' a = Inr d" by (rule read_domain_preserved)
  with p show ?thesis by (rule conjI)
qed


lemma read_store0: "read_domain store0 0 = Inr dom0"
  by (simp add: read_domain_def read_domain_obj_def read_feature_def store0_def dom0_def
      then_do_def)

text \<open>On the example the call adds two copies of the domain to the store, each with one
  feature pinned to \<open>(0, 0)\<close> and without the NChooseK constraint.\<close>

lemma ask_store0:
  "snd (ask stub_env stub_ask_env store0 0 2) =
     store0 @
     [FeatureObj (ContinuousInput ''x1'' (0, 0)), FeatureObj (ContinuousInput ''x2'' (0, 1)),
      DomainObj [3, 4] [],
      FeatureObj (ContinuousInput ''x1'' (0, 1)), FeatureObj (ContinuousInput ''x2'' (0, 0)),
      DomainObj [6, 7] []]"
  by code_simp

theorem C8_ask_witness:
  "read_domain store0 0 = Inr dom0 \<and>
   store_preserved store0 (snd (ask stub_env stub_ask_env store0 0 2)) \<and>
   read_domain (snd (ask stub_env stub_ask_env store0 0 2)) 0 = Inr dom0"
  using C8_ask_never_mutates_original_domain
    [of stub_env stub_ask_env store0 0 2 "fst (ask stub_env stub_ask_env store0 0 2)"
        "snd (ask stub_env stub_ask_env store0 0 2)" dom0]
    read_store0
  by simp

subsection \<open>One-hot encoding\<close>

lemma onehot_frame_a_b:
  "to_onehot_encoding cat_a_b \<lparr> name = None, data = [''x'', ''y''] \<rparr> =
     \<lparr> columns = [''a_b_x'', ''a_b_y''], rows = [[1, 0], [0, 1]] \<rparr>"
  by (simp add: to_onehot_encoding_def cat_a_b_def dict_comp_def cat_col_def CAT_SEP_def
      upt_rec [of 0] upt_rec [of 1] numeral_2_eq_2)

text \<open>For a key without the separator the round trip gives the series back.\<close>

lemma onehot_roundtrip_ab:
  "from_onehot_encoding cat_ab (to_onehot_encoding cat_ab \<lparr> name = None, data = [''x'', ''y''] \<rparr>)
     = Inr \<lparr> name = Some ''ab'', data = [''x'', ''y''] \<rparr>"
  by (simp add: from_onehot_encoding_def to_onehot_encoding_def cat_ab_def dict_comp_def
      cat_col_def CAT_SEP_def col_index_def idxmax_def
      upt_rec [of 0] upt_rec [of 1] numeral_2_eq_2)

text \<open>
  C10 at a key that contains the separator. The label \<open>a_b_x\<close> is split into the pieces
  \<open>a\<close>, \<open>b\<close>, \<open>x\<close> and the piece at position 1 is \<open>b\<close>, a fragment of
  the key: the series that comes back is not the series that went in.
\<close>

theorem C10_onehot_roundtrip_fails_on_separator_in_key:
  "from_onehot_encoding cat_a_b (to_onehot_encoding cat_a_b \<lparr> name = None, data = [''x'', ''y''] \<rparr>)
     = Inr \<lparr> name = Some ''a_b'', data = [''b'', ''b''] \<rparr>"
  by (simp add: onehot_frame_a_b)
     (simp add: from_onehot_encoding_def cat_a_b_def cat_col_def CAT_SEP_def col_index_def
        idxmax_def)

subsection \<open>ConstraintWrapper\<close>

lemma np_abs_not_negative: "\<not> np_lt (np_abs v) (Fin 0)"
  by (cases v) simp_all

lemma mask_assign_abs_negative:
  "mask_assign (map (\<lambda>v. np_lt (np_abs v) (Fin 0)) vs) (Fin 0) vs = vs"
  by (induction vs) (simp_all add: mask_assign_def np_abs_not_negative)

lemma length_chunks: "length (chunks r w xs) = r"
  by (induction r arbitrary: xs) simp_all

lemma concat_chunks: "length xs = r * w \<Longrightarrow> concat (chunks r w xs) = xs"
proof (induction r arbitrary: xs)
  case 0
  then show ?case by simp
next
  case (Suc r)
  have "length (drop w xs) = r * w" using Suc.prems by simp
  then have "concat (chunks r w (drop w xs)) = drop w xs" by (rule Suc.IH)
  then show ?case by simp
qed

text \<open>
  C9. \<open>ConstraintWrapper.__call__\<close> returns exactly what the wrapped constraint returns on
  the reshaped frame: the mask \<open>|v| < 0\<close> is False at every entry (also at infinities and
  NaN), so nothing is set to zero. This holds for every flat vector; on a vector of \<open>m\<close>
  rows of width \<open>D > 0\<close> the frame is built without error and holds the entries of the
  vector row by row, so the result is the evaluation of the constraint on that frame.
\<close>

theorem C9_call_returns_raw_evaluation:
  "ConstraintWrapper_call ceval cw x =
     (case frame_of_flat cw x of Inl e \<Rightarrow> Inl e | Inr df \<Rightarrow> ceval (cw_constraint cw) df)
   \<and> (0 < cw_D cw \<and> length (cw_names cw) = cw_D cw \<and> length x = m * cw_D cw \<longrightarrow>
        ConstraintWrapper_call ceval cw x =
          ceval (cw_constraint cw) \<lparr> columns = cw_names cw, rows = chunks m (cw_D cw) x \<rparr>
        \<and> concat (chunks m (cw_D cw) x) = x)"
proof -
  have raw: "ConstraintWrapper_call ceval cw x =
     (case frame_of_flat cw x of Inl e \<Rightarrow> Inl e | Inr df \<Rightarrow> ceval (cw_constraint cw) df)"
    by (simp add: ConstraintWrapper_call_def mask_assign_abs_negative split: sum.splits)
  have "frame_of_flat cw x = Inr \<lparr> columns = cw_names cw, rows = chunks m (cw_D cw) x \<rparr>"
    if "0 < cw_D cw" "length (cw_names cw) = cw_D cw" "length x = m * cw_D cw"
    using that by (simp add: frame_of_flat_def)
  with raw show ?thesis
    by (simp add: concat_chunks)
qed

lemma chunks_2_2: "chunks 2 2 [a, b, c, d] = [[a, b], [c, d]]"
  by (simp add: numeral_2_eq_2)

theorem C9_call_witness:
  "ConstraintWrapper_call (\<lambda>c df. Inr (map hd (rows df)))
     \<lparr> cw_constraint = NonlinearInequalityConstraint ''a**2 + b**2 - 1'' (Some [''a'', ''b'']) None,
       cw_names = [''a'', ''b''], cw_D = 2, cw_n_experiments = 2 \<rparr>
     [Fin (- 1), Fin 2, NaN, PosInf] = Inr [Fin (- 1), NaN]"
proof -
  let ?cw = "\<lparr> cw_constraint = NonlinearInequalityConstraint ''a**2 + b**2 - 1'' (Some [''a'', ''b'']) None,
           cw_names = [''a'', ''b''], cw_D = 2, cw_n_experiments = 2 \<rparr>"
  let ?x = "[Fin (- 1), Fin 2, NaN, PosInf]"
  have shape: "0 < cw_D ?cw \<and> length (cw_names ?cw) = cw_D ?cw \<and> length ?x = 2 * cw_D ?cw"
    by simp
  from C9_call_returns_raw_evaluation [of "\<lambda>c df. Inr (map hd (rows df))" ?cw ?x 2, THEN conjunct2, rule_format, OF shape]
  show ?thesis
    by (simp add: chunks_2_2)
qed

end
